theory Spec2Isabelle
  imports Main
begin

section \<open>Python values used by the scraper\<close>

text \<open>
  The development embeds \<^verbatim>\<open>src/U1.py\<close>, the Barchart news scraper: the window
  calculator \<^verbatim>\<open>date_str_to_timestamps_for_day\<close>, the timestamp normalizer
  \<^verbatim>\<open>parse_date_string_to_timestamp\<close> and the harvest loop
  \<^verbatim>\<open>fetch_barchart_news\<close>. Strings are ASCII strings; Python integers are \<open>int\<close>.
\<close>

datatype py_exn = ValueError | OverflowError

text \<open>Truthiness of an \<open>int\<close>-or-\<open>None\<close> value and of a \<open>str\<close>-or-\<open>None\<close> value.\<close>

fun truthy_int :: "int option \<Rightarrow> bool" where
  "truthy_int None = False"
| "truthy_int (Some n) = (n \<noteq> 0)"

fun truthy_str :: "string option \<Rightarrow> bool" where
  "truthy_str None = False"
| "truthy_str (Some s) = (s \<noteq> [])"

text \<open>\<^verbatim>\<open>str.lower()\<close> on ASCII text.\<close>

definition lower_char :: "char \<Rightarrow> char" where
  "lower_char c =
     (if 65 \<le> (of_char c :: nat) \<and> (of_char c :: nat) \<le> 90
      then char_of ((of_char c :: nat) + 32) else c)"

definition py_lower :: "string \<Rightarrow> string" where
  "py_lower s = map lower_char s"

text \<open>\<^verbatim>\<open>s.find(sub)\<close>: index of the first occurrence of \<open>sub\<close>, or \<open>-1\<close>.\<close>

fun py_find :: "string \<Rightarrow> string \<Rightarrow> int" where
  "py_find [] sub = (if sub = [] then 0 else -1)"
| "py_find (c # s) sub =
     (if take (length sub) (c # s) = sub then 0
      else (let r = py_find s sub in if r = -1 then -1 else r + 1))"

section \<open>Calendar arithmetic of \<^verbatim>\<open>datetime\<close>\<close>

text \<open>
  A \<^verbatim>\<open>datetime\<close> object: its civil fields and its \<^verbatim>\<open>tzinfo\<close>, which is
  \<open>None\<close> (naive) or a fixed offset from UTC in seconds.
\<close>

record datetime =
  dt_year :: int
  dt_month :: int
  dt_day :: int
  dt_hour :: int
  dt_minute :: int
  dt_second :: int
  dt_microsecond :: int
  dt_tzinfo :: "int option"

definition is_leap :: "int \<Rightarrow> bool" where
  "is_leap y = (y mod 4 = 0 \<and> (y mod 100 \<noteq> 0 \<or> y mod 400 = 0))"

definition days_in_month :: "int \<Rightarrow> int \<Rightarrow> int" where
  "days_in_month y m =
     (if m = 2 then (if is_leap y then 29 else 28)
      else if m = 4 \<or> m = 6 \<or> m = 9 \<or> m = 11 then 30 else 31)"

definition days_before_year :: "int \<Rightarrow> int" where
  "days_before_year y = (y - 1) * 365 + (y - 1) div 4 - (y - 1) div 100 + (y - 1) div 400"

text \<open>The library's table of the days before each month, for months 1 to 12.\<close>

definition days_before_month :: "int \<Rightarrow> int \<Rightarrow> int" where
  "days_before_month y m =
     [0, 31, 59, 90, 120, 151, 181, 212, 243, 273, 304, 334] ! nat (m - 1)
     + (if 2 < m \<and> is_leap y then 1 else 0)"

definition ymd2ord :: "int \<Rightarrow> int \<Rightarrow> int \<Rightarrow> int" where
  "ymd2ord y m d = days_before_year y + days_before_month y m + d"

text \<open>The proleptic Gregorian ordinal of 1970-01-01.\<close>

definition epoch_ordinal :: int where
  "epoch_ordinal = 719163"

text \<open>
  The instant of an aware \<^verbatim>\<open>datetime\<close> as microseconds since the epoch
  (\<^verbatim>\<open>self - EPOCH\<close> of the library); a naive one is read with offset \<open>0\<close>.
\<close>

definition utc_microseconds :: "datetime \<Rightarrow> int" where
  "utc_microseconds dt =
     (((ymd2ord (dt_year dt) (dt_month dt) (dt_day dt) - epoch_ordinal) * 86400
        + dt_hour dt * 3600 + dt_minute dt * 60 + dt_second dt
        - (case dt_tzinfo dt of None \<Rightarrow> 0 | Some off \<Rightarrow> off)) * 1000000
      + dt_microsecond dt)"

text \<open>
  \<^verbatim>\<open>datetime.min\<close> and \<^verbatim>\<open>datetime.max\<close> as instants:
  0001-01-01T00:00:00 and 9999-12-31T23:59:59.999999.
\<close>

definition min_microseconds :: int where
  "min_microseconds = (1 - epoch_ordinal) * 86400 * 1000000"

definition max_microseconds :: int where
  "max_microseconds = ((3652059 - epoch_ordinal) * 86400 + 86399) * 1000000 + 999999"

text \<open>
  \<^verbatim>\<open>dt.astimezone(timezone.utc)\<close> keeps the instant and raises
  \<^verbatim>\<open>OverflowError\<close> when the UTC fields leave the years 1 to 9999. The
  resulting UTC \<^verbatim>\<open>datetime\<close> is represented by its instant.
\<close>

definition astimezone_utc :: "datetime \<Rightarrow> py_exn + int" where
  "astimezone_utc dt =
     (let us = utc_microseconds dt
      in if us < min_microseconds \<or> max_microseconds < us then Inl OverflowError else Inr us)"

subsection \<open>\<^verbatim>\<open>int(dt.timestamp())\<close>\<close>

text \<open>
  \<^verbatim>\<open>timestamp()\<close> of an aware \<^verbatim>\<open>datetime\<close> is the true division of the
  microseconds since the epoch by \<open>10\<^sup>6\<close>: the quotient rounded to the nearest
  binary64 number (53 significant bits, ties to even). \<^verbatim>\<open>int()\<close> then truncates
  towards zero. Both steps are written out on integers.
\<close>

fun bit_length :: "nat \<Rightarrow> nat" where
  "bit_length n = (if n = 0 then 0 else Suc (bit_length (n div 2)))"

declare bit_length.simps [simp del]

definition round_half_even :: "int \<Rightarrow> int \<Rightarrow> int" where
  "round_half_even n d =
     (let q = n div d; r = n mod d
      in if 2 * r < d then q else if d < 2 * r then q + 1
         else if even q then q else q + 1)"

definition int_of_timestamp :: "int \<Rightarrow> int" where
  "int_of_timestamp us =
     (let a = \<bar>us\<bar>
      in if a < 1000000 then 0
         else
           (let e = bit_length (nat (a div 1000000)) - 1;
                t = (if e \<le> 52
                     then round_half_even (a * 2 ^ (52 - e)) 1000000 div 2 ^ (52 - e)
                     else round_half_even a (1000000 * 2 ^ (e - 52)) * 2 ^ (e - 52))
            in sgn us * t))"

section \<open>\<^verbatim>\<open>datetime.strptime(s, '%Y%m%d')\<close>\<close>

text \<open>
  The library turns the format into the regular expression
  \<^verbatim>\<open>(\d\d\d\d)(1[0-2]|0[1-9]|[1-9])(3[0-1]|[1-2]\d|0[1-9]|[1-9]| [1-9])\<close>,
  takes its first match at the start of the string (alternatives in this order, with
  backtracking), fails when text remains after the match, and then checks the calendar
  date. Each directive is modelled by the list of its possible matches, best first.
\<close>

definition is_digit :: "char \<Rightarrow> bool" where
  "is_digit c = (48 \<le> (of_char c :: nat) \<and> (of_char c :: nat) \<le> 57)"

definition digit_val :: "char \<Rightarrow> int" where
  "digit_val c = int (of_char c) - 48"

definition in_range :: "char \<Rightarrow> int \<Rightarrow> int \<Rightarrow> bool" where
  "in_range c lo hi = (is_digit c \<and> lo \<le> digit_val c \<and> digit_val c \<le> hi)"

fun match_Y :: "string \<Rightarrow> (int \<times> string) option" where
  "match_Y (a # b # c # d # rest) =
     (if is_digit a \<and> is_digit b \<and> is_digit c \<and> is_digit d
      then Some (1000 * digit_val a + 100 * digit_val b + 10 * digit_val c + digit_val d, rest)
      else None)"
| "match_Y _ = None"

fun two_chars :: "(char \<Rightarrow> bool) \<Rightarrow> (char \<Rightarrow> bool) \<Rightarrow> string \<Rightarrow> (int \<times> string) list" where
  "two_chars p q (a # b # rest) =
     (if p a \<and> q b then [((if is_digit a then 10 * digit_val a else 0) + digit_val b, rest)]
      else [])"
| "two_chars p q _ = []"

fun one_char :: "(char \<Rightarrow> bool) \<Rightarrow> string \<Rightarrow> (int \<times> string) list" where
  "one_char p (a # rest) = (if p a then [(digit_val a, rest)] else [])"
| "one_char p [] = []"

definition match_m :: "string \<Rightarrow> (int \<times> string) list" where
  "match_m s =
     two_chars (\<lambda>c. c = CHR ''1'') (\<lambda>c. in_range c 0 2) s
     @ two_chars (\<lambda>c. c = CHR ''0'') (\<lambda>c. in_range c 1 9) s
     @ one_char (\<lambda>c. in_range c 1 9) s"

definition match_d :: "string \<Rightarrow> (int \<times> string) list" where
  "match_d s =
     two_chars (\<lambda>c. c = CHR ''3'') (\<lambda>c. in_range c 0 1) s
     @ two_chars (\<lambda>c. in_range c 1 2) is_digit s
     @ two_chars (\<lambda>c. c = CHR ''0'') (\<lambda>c. in_range c 1 9) s
     @ one_char (\<lambda>c. in_range c 1 9) s
     @ two_chars (\<lambda>c. c = CHR '' '') (\<lambda>c. in_range c 1 9) s"

definition strptime_Ymd :: "string \<Rightarrow> py_exn + datetime" where
  "strptime_Ymd s =
     (case match_Y s of
        None \<Rightarrow> Inl ValueError
      | Some (y, r) \<Rightarrow>
          (case concat (map (\<lambda>(m, r'). map (\<lambda>(d, r''). (m, d, r'')) (match_d r')) (match_m r)) of
             [] \<Rightarrow> Inl ValueError
           | (m, d, rest) # _ \<Rightarrow>
               if rest \<noteq> [] then Inl ValueError
               else if y < 1 \<or> days_in_month y m < d then Inl ValueError
               else Inr \<lparr>dt_year = y, dt_month = m, dt_day = d, dt_hour = 0, dt_minute = 0,
                         dt_second = 0, dt_microsecond = 0, dt_tzinfo = None\<rparr>))"

section \<open>The window calculator\<close>

text \<open>
  \<^verbatim>\<open>date_str_to_timestamps_for_day\<close>: the day's first and last microsecond at the
  fixed offset UTC-5, converted to UTC and to whole epoch seconds. A
  \<^verbatim>\<open>ValueError\<close> is caught and gives \<^verbatim>\<open>(None, None)\<close>; any other exception
  leaves the function.
\<close>

definition cdt_tz :: int where
  "cdt_tz = - 5 * 3600"

definition date_str_to_timestamps_for_day :: "string \<Rightarrow> py_exn + (int option \<times> int option)" where
  "date_str_to_timestamps_for_day date_str_yyyymmdd =
     (case strptime_Ymd date_str_yyyymmdd of
        Inl ValueError \<Rightarrow> Inr (None, None)
      | Inl e \<Rightarrow> Inl e
      | Inr dt_obj_naive \<Rightarrow>
          (let dt_obj_cdt_start = dt_obj_naive\<lparr>dt_hour := 0, dt_minute := 0, dt_second := 0,
                 dt_microsecond := 0, dt_tzinfo := Some cdt_tz\<rparr>;
               dt_obj_cdt_end = dt_obj_naive\<lparr>dt_hour := 23, dt_minute := 59, dt_second := 59,
                 dt_microsecond := 999999, dt_tzinfo := Some cdt_tz\<rparr>
           in case astimezone_utc dt_obj_cdt_start of
                Inl e \<Rightarrow> Inl e
              | Inr dt_obj_utc_start \<Rightarrow>
                  (case astimezone_utc dt_obj_cdt_end of
                     Inl e \<Rightarrow> Inl e
                   | Inr dt_obj_utc_end \<Rightarrow>
                       Inr (Some (int_of_timestamp dt_obj_utc_start),
                            Some (int_of_timestamp dt_obj_utc_end)))))"

section \<open>The timestamp normalizer\<close>

text \<open>
  \<^verbatim>\<open>dt.replace(year=y)\<close> raises \<^verbatim>\<open>ValueError\<close> when the year is outside 1 to
  9999 or the day does not exist in that year.
\<close>

definition replace_year :: "datetime \<Rightarrow> int \<Rightarrow> py_exn + datetime" where
  "replace_year dt y =
     (if y < 1 \<or> 9999 < y \<or> days_in_month y (dt_month dt) < dt_day dt then Inl ValueError
      else Inr (dt\<lparr>dt_year := y\<rparr>))"

text \<open>
  \<^verbatim>\<open>parse_date_string_to_timestamp\<close>. The general parser
  \<^verbatim>\<open>dateutil.parser.parse\<close> is a library outside the repository: it is the
  parameter \<open>date_parser_parse\<close>, \<open>None\<close> where it raises. \<open>current_year\<close> is
  \<^verbatim>\<open>datetime.datetime.now().year\<close>. Every exception of the body is caught and gives
  \<open>None\<close>.
\<close>

definition parse_date_string_to_timestamp ::
  "(string \<Rightarrow> datetime option) \<Rightarrow> int \<Rightarrow> string \<Rightarrow> int option" where
  "parse_date_string_to_timestamp date_parser_parse current_year date_str =
     (if date_str = [] then None
      else
        (case date_parser_parse date_str of
           None \<Rightarrow> None
         | Some dt_parsed \<Rightarrow>
             (let dt_object =
                    (if dt_tzinfo dt_parsed = None
                     then
                       (let dt_cdt = dt_parsed\<lparr>dt_tzinfo := Some cdt_tz\<rparr>
                        in if py_find (py_lower date_str) ''am'' = -1
                              \<and> py_find (py_lower date_str) ''pm'' = -1
                           then dt_cdt\<lparr>dt_hour := 12, dt_minute := 0, dt_second := 0,
                                  dt_microsecond := 0\<rparr>
                           else dt_cdt)
                     else dt_parsed)
              in case (if dt_year dt_object = 1900 then replace_year dt_object current_year
                       else Inr dt_object) of
                   Inl e \<Rightarrow> None
                 | Inr dt_final \<Rightarrow>
                     (case astimezone_utc dt_final of
                        Inl e \<Rightarrow> None
                      | Inr dt_object_utc \<Rightarrow> Some (int_of_timestamp dt_object_utc)))))"

section \<open>The harvest loop\<close>

text \<open>
  One \<^verbatim>\<open>div.story\<close> of a page, as the extraction at the head of the inner loop
  leaves it: whether both the link tag and the meta tag were found, the absolute URL,
  the title, the id found in the URL (if any), the feed name and the date text cut from
  the meta text, and the excerpt (empty when the tag is missing). The HTML parser and
  the regular expressions that produce these values are not modelled.
\<close>

record story =
  link_and_meta :: bool
  news_url :: string
  title :: string
  news_id :: "string option"
  feed_name :: string
  published_str_part :: string
  summary :: string

text \<open>A collected item (the dictionary appended to \<^verbatim>\<open>all_news_items\<close>).\<close>

record news_item =
  item_id :: string
  item_title :: string
  item_url :: string
  published_str_original :: string
  published_timestamp_utc :: int
  item_summary :: string

text \<open>
  The \<^verbatim>\<open>'timestamp'\<close> entry of a response: missing or falsy, truthy but refused by
  \<^verbatim>\<open>int()\<close> with a \<^verbatim>\<open>ValueError\<close>, or truthy with an integer value. The
  \<^verbatim>\<open>'content'\<close> entry is \<open>None\<close> when missing or empty, otherwise the stories
  found in the HTML.
\<close>

datatype timestamp_field = NoTimestamp | BadTimestamp | Timestamp int

record page =
  content :: "story list option"
  timestamp :: timestamp_field

datatype response = RequestException | JSONDecodeError | FalsyJson | Json page

text \<open>The messages that announce why the function stops.\<close>

datatype message =
    CouldNotDetermineRange | FailedToObtainToken | ApiCallError | DecodeError
  | NoJsonResponse | NoMoreOlderNews | OlderThanTargetStart | ReachedNewsCountLimit
  | ReachedMaxApiCalls

text \<open>
  The surroundings of one run: the date parser and the clock, the result of the
  initial handshake, the remote service (the response to API call number \<open>n\<close> with a
  given \<^verbatim>\<open>before\<close> value) and the module constant \<^verbatim>\<open>MAX_API_CALLS\<close> (500 in
  the source).
\<close>

record env =
  date_parser_parse :: "string \<Rightarrow> datetime option"
  current_year :: int
  utc_now :: int
  get_initial_cookies_and_xsrf :: "string option"
  session_post :: "nat \<Rightarrow> int \<Rightarrow> response"
  MAX_API_CALLS :: nat

text \<open>The variables fixed before the loop starts.\<close>

record params =
  target_date_str :: "string option"
  target_day_start_ts :: "int option"
  target_day_end_ts :: "int option"
  news_count_limit :: int

text \<open>
  The variables the loop changes. \<open>requests\<close> and \<open>printed\<close> record what the run
  shows to the outside: the \<^verbatim>\<open>before\<close> value of every API call and the stop
  messages, each in order. The two counters that are only printed are left out.
\<close>

record state =
  current_before_timestamp :: int
  all_news_items :: "news_item list"
  processed_news_ids :: "string set"
  api_call_num :: nat
  stop_fetching :: bool
  earliest_valid_ts_in_batch_for_fallback :: "int option"
  requests :: "int list"
  printed :: "message list"

subsection \<open>The inner loop over the stories of a page\<close>

text \<open>
  \<^verbatim>\<open>target_day_start_ts and current_item_ts_utc < target_day_start_ts\<close>, and the
  chained comparison of the window test. The window test is only reached with a truthy
  \<^verbatim>\<open>target_date_str\<close>, where both bounds are integers.
\<close>

definition older_than_target_start :: "params \<Rightarrow> int \<Rightarrow> bool" where
  "older_than_target_start p ts =
     (case target_day_start_ts p of None \<Rightarrow> False | Some start \<Rightarrow> start \<noteq> 0 \<and> ts < start)"

definition in_target_range :: "params \<Rightarrow> int \<Rightarrow> bool" where
  "in_target_range p ts =
     (case (target_day_start_ts p, target_day_end_ts p) of
        (Some start, Some end) \<Rightarrow> start \<le> ts \<and> ts \<le> end
      | _ \<Rightarrow> False)"

definition make_item :: "story \<Rightarrow> string \<Rightarrow> int \<Rightarrow> news_item" where
  "make_item sd nid ts =
     \<lparr>item_id = nid, item_title = title sd, item_url = news_url sd,
      published_str_original = published_str_part sd, published_timestamp_utc = ts,
      item_summary = summary sd\<rparr>"

datatype 'a flow = Continue 'a | Break 'a

text \<open>
  The head of the body of \<^verbatim>\<open>for story_div in stories\<close>: the guards that skip a
  story with \<^verbatim>\<open>continue\<close> (tags missing, no id in the URL, a feed other than
  Barchart, an unparseable date). A story that passes them is a candidate: it has an id
  and a resolved timestamp.
\<close>

definition candidate :: "env \<Rightarrow> story \<Rightarrow> (string \<times> int) option" where
  "candidate E sd =
     (if \<not> link_and_meta sd then None
      else
        (case news_id sd of
           None \<Rightarrow> None
         | Some nid \<Rightarrow>
             if nid = [] then None
             else if py_lower (feed_name sd) \<noteq> ''barchart'' then None
             else
               (case parse_date_string_to_timestamp (date_parser_parse E) (current_year E)
                       (published_str_part sd) of
                  None \<Rightarrow> None
                | Some current_item_ts_utc \<Rightarrow> Some (nid, current_item_ts_utc))))"

text \<open>The update of the oldest timestamp seen in the batch.\<close>

definition note_earliest :: "state \<Rightarrow> int \<Rightarrow> state" where
  "note_earliest st current_item_ts_utc =
     (case earliest_valid_ts_in_batch_for_fallback st of
        None \<Rightarrow> st\<lparr>earliest_valid_ts_in_batch_for_fallback := Some current_item_ts_utc\<rparr>
      | Some earliest \<Rightarrow>
          if current_item_ts_utc < earliest
          then st\<lparr>earliest_valid_ts_in_batch_for_fallback := Some current_item_ts_utc\<rparr>
          else st)"

text \<open>The whole body of the inner loop, for one story.\<close>

definition story_body :: "env \<Rightarrow> params \<Rightarrow> state \<Rightarrow> story \<Rightarrow> state flow" where
  "story_body E p st sd =
     (case candidate E sd of
        None \<Rightarrow> Continue st
      | Some (nid, current_item_ts_utc) \<Rightarrow>
          (let st1 = note_earliest st current_item_ts_utc
           in if older_than_target_start p current_item_ts_utc
              then Break (st1\<lparr>stop_fetching := True,
                              printed := printed st1 @ [OlderThanTargetStart]\<rparr>)
              else if nid \<notin> processed_news_ids st1
              then
                (if \<not> truthy_str (target_date_str p) \<or> in_target_range p current_item_ts_utc
                 then Continue
                        (st1\<lparr>all_news_items :=
                               all_news_items st1 @ [make_item sd nid current_item_ts_utc],
                             processed_news_ids := insert nid (processed_news_ids st1)\<rparr>)
                 else Continue st1)
              else Continue st1))"

fun story_loop :: "env \<Rightarrow> params \<Rightarrow> state \<Rightarrow> story list \<Rightarrow> state" where
  "story_loop E p st [] = st"
| "story_loop E p st (sd # stories) =
     (case story_body E p st sd of
        Continue st' \<Rightarrow> story_loop E p st' stories
      | Break st' \<Rightarrow> st')"

subsection \<open>One API call\<close>

text \<open>
  The choice of the next \<^verbatim>\<open>before\<close> value: the \<^verbatim>\<open>'timestamp'\<close> of the response
  is taken when it is an integer below the current value; in every other case the
  current value is kept (the source only prints a warning).
\<close>

definition next_before_timestamp :: "state \<Rightarrow> timestamp_field \<Rightarrow> state" where
  "next_before_timestamp st ts =
     (case ts of
        Timestamp next_api_page_timestamp \<Rightarrow>
          if next_api_page_timestamp < current_before_timestamp st
          then st\<lparr>current_before_timestamp := next_api_page_timestamp\<rparr>
          else st
      | _ \<Rightarrow> st)"

definition stop_with :: "message \<Rightarrow> state \<Rightarrow> state" where
  "stop_with m st = st\<lparr>stop_fetching := True, printed := printed st @ [m]\<rparr>"

text \<open>The body of the \<^verbatim>\<open>while\<close> loop: one API call and what follows from its response.\<close>

definition while_body :: "env \<Rightarrow> params \<Rightarrow> state \<Rightarrow> state" where
  "while_body E p st0 =
     (let st = st0\<lparr>api_call_num := Suc (api_call_num st0),
                   requests := requests st0 @ [current_before_timestamp st0]\<rparr>
      in case session_post E (api_call_num st) (current_before_timestamp st) of
           RequestException \<Rightarrow> stop_with ApiCallError st
         | JSONDecodeError \<Rightarrow> stop_with DecodeError st
         | FalsyJson \<Rightarrow> stop_with NoJsonResponse st
         | Json response_json \<Rightarrow>
             (let st1 = (if content response_json = None \<and> timestamp response_json = NoTimestamp
                         then stop_with NoMoreOlderNews st else st);
                  st2 = st1\<lparr>earliest_valid_ts_in_batch_for_fallback := None\<rparr>;
                  st3 = (case content response_json of
                           None \<Rightarrow> st2
                         | Some stories \<Rightarrow> story_loop E p st2 stories)
              in if stop_fetching st3 then st3
                 else
                   (let st4 = next_before_timestamp st3 (timestamp response_json)
                    in if \<not> truthy_str (target_date_str p)
                          \<and> news_count_limit p \<le> int (length (all_news_items st4))
                       then stop_with ReachedNewsCountLimit st4
                       else st4)))"

subsection \<open>The \<^verbatim>\<open>while\<close> loop and the function around it\<close>

text \<open>Every pass of the loop body counts one API call, whatever the response.\<close>

lemma story_body_api_call_num:
  "story_body E p st sd = Continue st' \<or> story_body E p st sd = Break st' \<Longrightarrow>
   api_call_num st' = api_call_num st"
  by (auto simp: story_body_def note_earliest_def Let_def split: if_splits option.splits)

lemma story_loop_api_call_num: "api_call_num (story_loop E p st stories) = api_call_num st"
proof (induction stories arbitrary: st)
  case Nil
  show ?case by simp
next
  case (Cons sd stories)
  show ?case
  proof (cases "story_body E p st sd")
    case (Continue st')
    with Cons.IH [of st'] story_body_api_call_num [of E p st sd st'] show ?thesis by simp
  next
    case (Break st')
    with story_body_api_call_num [of E p st sd st'] show ?thesis by simp
  qed
qed

lemma while_body_api_call_num: "api_call_num (while_body E p st) = Suc (api_call_num st)"
  by (simp add: while_body_def Let_def stop_with_def next_before_timestamp_def
      story_loop_api_call_num split: response.splits option.splits timestamp_field.splits)

function while_loop :: "env \<Rightarrow> params \<Rightarrow> state \<Rightarrow> state" where
  "while_loop E p st =
     (if \<not> stop_fetching st \<and> api_call_num st < MAX_API_CALLS E
      then while_loop E p (while_body E p st)
      else st)"
  by pat_completeness auto
termination
  by (relation "measure (\<lambda>(E, p, st). MAX_API_CALLS E - api_call_num st)")
    (auto simp: while_body_api_call_num)

declare while_loop.simps [simp del]

text \<open>The list comprehension of the final check.\<close>

definition final_filter :: "params \<Rightarrow> news_item list \<Rightarrow> news_item list" where
  "final_filter p items =
     (if truthy_int (target_day_start_ts p) \<and> truthy_int (target_day_end_ts p)
      then filter (\<lambda>item. in_target_range p (published_timestamp_utc item)) items
      else items)"

definition initial_state :: "int \<Rightarrow> state" where
  "initial_state before_ts =
     \<lparr>current_before_timestamp = before_ts, all_news_items = [], processed_news_ids = {},
      api_call_num = 0, stop_fetching = False,
      earliest_valid_ts_in_batch_for_fallback = None, requests = [], printed = []\<rparr>"

text \<open>
  What follows \<^verbatim>\<open>with requests.Session() as session\<close>: the token, the loop, the
  message about the call limit and the final check.
\<close>

definition run_session :: "env \<Rightarrow> params \<Rightarrow> string option \<Rightarrow> state \<Rightarrow> state" where
  "run_session E p initial_xsrf_token st0 =
     (let xsrf_token = (if truthy_str initial_xsrf_token then initial_xsrf_token
                        else get_initial_cookies_and_xsrf E)
      in if \<not> truthy_str xsrf_token
         then st0\<lparr>all_news_items := [], printed := printed st0 @ [FailedToObtainToken]\<rparr>
         else
           (let st = while_loop E p st0;
                st' = (if MAX_API_CALLS E \<le> api_call_num st
                       then st\<lparr>printed := printed st @ [ReachedMaxApiCalls]\<rparr> else st)
            in st'\<lparr>all_news_items := final_filter p (all_news_items st')\<rparr>))"

text \<open>
  \<^verbatim>\<open>fetch_barchart_news\<close>, returning the final state: its \<open>all_news_items\<close> is the
  list the source returns (\<open>date_arg\<close> and \<open>limit_arg\<close> are the arguments
  \<^verbatim>\<open>target_date_str\<close> and \<^verbatim>\<open>news_count_limit\<close>). The \<^verbatim>\<open>subsection\<close> argument only selects the URLs of the
  requests, which \<open>session_post\<close> and \<open>get_initial_cookies_and_xsrf\<close> stand for. An
  exception that leaves the window calculator leaves this function too.
\<close>

definition fetch_barchart_news_state ::
  "env \<Rightarrow> string option \<Rightarrow> int \<Rightarrow> string option \<Rightarrow> py_exn + state" where
  "fetch_barchart_news_state E date_arg limit_arg initial_xsrf_token =
     (if truthy_str date_arg
      then
        (case date_str_to_timestamps_for_day (the date_arg) of
           Inl e \<Rightarrow> Inl e
         | Inr (start_ts, end_ts) \<Rightarrow>
             if \<not> (truthy_int start_ts \<and> truthy_int end_ts)
             then Inr ((initial_state 0)\<lparr>printed := [CouldNotDetermineRange]\<rparr>)
             else Inr (run_session E
                    \<lparr>target_date_str = date_arg, target_day_start_ts = start_ts,
                     target_day_end_ts = end_ts, news_count_limit = limit_arg\<rparr>
                    initial_xsrf_token (initial_state (the end_ts + 1))))
      else Inr (run_session E
             \<lparr>target_date_str = date_arg, target_day_start_ts = None,
              target_day_end_ts = None, news_count_limit = limit_arg\<rparr>
             initial_xsrf_token (initial_state (utc_now E))))"

definition fetch_barchart_news ::
  "env \<Rightarrow> string option \<Rightarrow> int \<Rightarrow> string option \<Rightarrow> py_exn + news_item list" where
  "fetch_barchart_news E date_arg limit_arg initial_xsrf_token =
     map_sum id all_news_items (fetch_barchart_news_state E date_arg limit_arg initial_xsrf_token)"

section \<open>Notions used to state the properties\<close>

text \<open>
  The state a step of the inner loop leaves, whether the loop goes on or breaks; the
  relation between the seen ids and the collected items; the two shapes of the fixed
  variables that the function can set up (a target date with both bounds truthy, or no
  target date and no bounds); and the window test on every collected item.
\<close>

fun flow_state :: "'a flow \<Rightarrow> 'a" where
  "flow_state (Continue s) = s"
| "flow_state (Break s) = s"

definition seen_inv :: "state \<Rightarrow> bool" where
  "seen_inv st = (processed_news_ids st = set (map item_id (all_news_items st)))"

lemma note_earliest_fields [simp]:
  "all_news_items (note_earliest st ts) = all_news_items st"
  "processed_news_ids (note_earliest st ts) = processed_news_ids st"
  "api_call_num (note_earliest st ts) = api_call_num st"
  "stop_fetching (note_earliest st ts) = stop_fetching st"
  "requests (note_earliest st ts) = requests st"
  "printed (note_earliest st ts) = printed st"
  "current_before_timestamp (note_earliest st ts) = current_before_timestamp st"
  by (simp_all add: note_earliest_def split: option.splits)

lemma story_body_None: "candidate E sd = None \<Longrightarrow> story_body E p st sd = Continue st"
  by (simp add: story_body_def)

lemma story_body_seen_inv: "seen_inv st \<Longrightarrow> seen_inv (flow_state (story_body E p st sd))"
  by (auto simp: story_body_def seen_inv_def Let_def make_item_def split: option.splits)

lemma story_loop_seen_inv: "seen_inv st \<Longrightarrow> seen_inv (story_loop E p st stories)"
proof (induction stories arbitrary: st)
  case Nil
  then show ?case by simp
next
  case (Cons sd stories)
  from Cons.prems have inv: "seen_inv (flow_state (story_body E p st sd))"
    by (rule story_body_seen_inv)
  show ?case
  proof (cases "story_body E p st sd")
    case (Continue st')
    with inv Cons.IH [of st'] show ?thesis by simp
  next
    case (Break st')
    with inv show ?thesis by simp
  qed
qed

lemma while_body_seen_inv: "seen_inv st \<Longrightarrow> seen_inv (while_body E p st)"
proof -
  assume inv: "seen_inv st"
  have a: "\<And>s m. seen_inv s \<Longrightarrow> seen_inv (stop_with m s)"
    by (simp add: seen_inv_def stop_with_def)
  have b: "\<And>s t. seen_inv s \<Longrightarrow> seen_inv (next_before_timestamp s t)"
    by (simp add: seen_inv_def next_before_timestamp_def split: timestamp_field.splits)
  have c: "\<And>s f g. seen_inv s \<Longrightarrow> seen_inv (s\<lparr>api_call_num := f, requests := g\<rparr>)"
    by (simp add: seen_inv_def)
  have d: "\<And>s f. seen_inv s \<Longrightarrow> seen_inv (s\<lparr>earliest_valid_ts_in_batch_for_fallback := f\<rparr>)"
    by (simp add: seen_inv_def)
  show ?thesis
    using inv
    by (auto simp: while_body_def Let_def a b c d story_loop_seen_inv
        split: response.splits option.splits)
qed

lemma while_loop_stop:
  "stop_fetching st \<or> MAX_API_CALLS E \<le> api_call_num st \<Longrightarrow> while_loop E p st = st"
  by (subst while_loop.simps) auto

lemma while_loop_step:
  "\<not> stop_fetching st \<Longrightarrow> api_call_num st < MAX_API_CALLS E \<Longrightarrow>
   while_loop E p st = while_loop E p (while_body E p st)"
  by (subst while_loop.simps) simp

lemma while_loop_seen_inv: "seen_inv st \<Longrightarrow> seen_inv (while_loop E p st)"
proof (induction E p st rule: while_loop.induct)
  case (1 E p st)
  show ?case
  proof (cases "\<not> stop_fetching st \<and> api_call_num st < MAX_API_CALLS E")
    case True
    with "1.IH" "1.prems" have "seen_inv (while_loop E p (while_body E p st))"
      by (simp add: while_body_seen_inv)
    with True show ?thesis by (simp add: while_loop_step)
  next
    case False
    then have "while_loop E p st = st" by (intro while_loop_stop) auto
    with "1.prems" show ?thesis by simp
  qed
qed

definition params_ok :: "params \<Rightarrow> bool" where
  "params_ok p =
     (if truthy_str (target_date_str p)
      then truthy_int (target_day_start_ts p) \<and> truthy_int (target_day_end_ts p)
      else target_day_start_ts p = None \<and> target_day_end_ts p = None)"

definition all_in_range :: "params \<Rightarrow> state \<Rightarrow> bool" where
  "all_in_range p st =
     list_all (\<lambda>item. in_target_range p (published_timestamp_utc item)) (all_news_items st)"

lemma story_body_all_in_range:
  "truthy_str (target_date_str p) \<Longrightarrow> all_in_range p st \<Longrightarrow>
   all_in_range p (flow_state (story_body E p st sd))"
  by (auto simp: story_body_def all_in_range_def Let_def make_item_def split: option.splits)

lemma story_loop_all_in_range:
  "truthy_str (target_date_str p) \<Longrightarrow> all_in_range p st \<Longrightarrow>
   all_in_range p (story_loop E p st stories)"
proof (induction stories arbitrary: st)
  case Nil
  then show ?case by simp
next
  case (Cons sd stories)
  from Cons.prems have inv: "all_in_range p (flow_state (story_body E p st sd))"
    by (rule story_body_all_in_range)
  show ?case
  proof (cases "story_body E p st sd")
    case (Continue st')
    with inv Cons.IH [of st'] Cons.prems(1) show ?thesis by simp
  next
    case (Break st')
    with inv show ?thesis by simp
  qed
qed

lemma while_body_items_cases:
  "(all_news_items (while_body E p st) = all_news_items st
      \<and> processed_news_ids (while_body E p st) = processed_news_ids st)
   \<or> (\<exists>st2 stories. all_news_items st2 = all_news_items st
         \<and> processed_news_ids st2 = processed_news_ids st
         \<and> all_news_items (while_body E p st) = all_news_items (story_loop E p st2 stories)
         \<and> processed_news_ids (while_body E p st) = processed_news_ids (story_loop E p st2 stories))"
proof (cases "session_post E (Suc (api_call_num st)) (current_before_timestamp st)")
  case (Json pg)
  show ?thesis
  proof (cases "content pg")
    case None
    with Json show ?thesis
      by (simp add: while_body_def Let_def stop_with_def next_before_timestamp_def
          split: timestamp_field.splits)
  next
    case (Some stories)
    let ?st1 = "st\<lparr>api_call_num := Suc (api_call_num st),
                    requests := requests st @ [current_before_timestamp st],
                    earliest_valid_ts_in_batch_for_fallback := None\<rparr>"
    have "all_news_items (while_body E p st) = all_news_items (story_loop E p ?st1 stories)
        \<and> processed_news_ids (while_body E p st) = processed_news_ids (story_loop E p ?st1 stories)"
      using Json Some
      by (simp add: while_body_def Let_def stop_with_def next_before_timestamp_def
          split: timestamp_field.splits)
    moreover have "all_news_items ?st1 = all_news_items st
        \<and> processed_news_ids ?st1 = processed_news_ids st"
      by simp
    ultimately show ?thesis by blast
  qed
qed (simp_all add: while_body_def Let_def stop_with_def)

lemma while_body_all_in_range:
  assumes "truthy_str (target_date_str p)" and "all_in_range p st"
  shows "all_in_range p (while_body E p st)"
proof -
  from while_body_items_cases [of E p st] show ?thesis
  proof
    assume "all_news_items (while_body E p st) = all_news_items st
      \<and> processed_news_ids (while_body E p st) = processed_news_ids st"
    with assms(2) show ?thesis by (simp add: all_in_range_def)
  next
    assume "\<exists>st2 stories. all_news_items st2 = all_news_items st
         \<and> processed_news_ids st2 = processed_news_ids st
         \<and> all_news_items (while_body E p st) = all_news_items (story_loop E p st2 stories)
         \<and> processed_news_ids (while_body E p st) = processed_news_ids (story_loop E p st2 stories)"
    then obtain st2 stories where st2: "all_news_items st2 = all_news_items st"
      and res: "all_news_items (while_body E p st) = all_news_items (story_loop E p st2 stories)"
      by blast
    from st2 assms(2) have "all_in_range p st2" by (simp add: all_in_range_def)
    with assms(1) have "all_in_range p (story_loop E p st2 stories)"
      by (rule story_loop_all_in_range)
    with res show ?thesis by (simp add: all_in_range_def)
  qed
qed

lemma while_loop_all_in_range:
  "truthy_str (target_date_str p) \<Longrightarrow> all_in_range p st \<Longrightarrow> all_in_range p (while_loop E p st)"
proof (induction E p st rule: while_loop.induct)
  case (1 E p st)
  show ?case
  proof (cases "\<not> stop_fetching st \<and> api_call_num st < MAX_API_CALLS E")
    case True
    with "1.IH" "1.prems" have "all_in_range p (while_loop E p (while_body E p st))"
      by (simp add: while_body_all_in_range)
    with True show ?thesis by (simp add: while_loop_step)
  next
    case False
    then have "while_loop E p st = st" by (intro while_loop_stop) auto
    with "1.prems" show ?thesis by simp
  qed
qed

lemma final_filter_id:
  "params_ok p \<Longrightarrow> (truthy_str (target_date_str p) \<Longrightarrow> all_in_range p st) \<Longrightarrow>
   final_filter p (all_news_items st) = all_news_items st"
  by (cases "truthy_str (target_date_str p)")
    (auto simp: final_filter_def params_ok_def all_in_range_def list_all_iff)

lemma initial_state_fields [simp]:
  "all_news_items (initial_state b) = []"
  "processed_news_ids (initial_state b) = {}"
  "api_call_num (initial_state b) = 0"
  "stop_fetching (initial_state b) = False"
  "requests (initial_state b) = []"
  "printed (initial_state b) = []"
  "current_before_timestamp (initial_state b) = b"
  by (simp_all add: initial_state_def)

lemma run_session_items:
  assumes "params_ok p" and "truthy_str (if truthy_str tok then tok else get_initial_cookies_and_xsrf E)"
  shows "all_news_items (run_session E p tok (initial_state b))
           = all_news_items (while_loop E p (initial_state b))
       \<and> processed_news_ids (run_session E p tok (initial_state b))
           = processed_news_ids (while_loop E p (initial_state b))"
proof -
  let ?st = "while_loop E p (initial_state b)"
  have "truthy_str (target_date_str p) \<Longrightarrow> all_in_range p ?st"
    by (rule while_loop_all_in_range) (simp_all add: all_in_range_def)
  with assms(1) have id: "final_filter p (all_news_items ?st) = all_news_items ?st"
    by (rule final_filter_id)
  from assms(2) id show ?thesis
    by (simp add: run_session_def Let_def)
qed

lemma run_session_no_token:
  "\<not> truthy_str (if truthy_str tok then tok else get_initial_cookies_and_xsrf E) \<Longrightarrow>
   run_session E p tok st0 = st0\<lparr>all_news_items := [], printed := printed st0 @ [FailedToObtainToken]\<rparr>"
  by (simp add: run_session_def Let_def)

lemma run_session_seen_inv: "params_ok p \<Longrightarrow> seen_inv (run_session E p tok (initial_state b))"
proof (cases "truthy_str (if truthy_str tok then tok else get_initial_cookies_and_xsrf E)")
  case True
  assume "params_ok p"
  from run_session_items [OF this True, of b]
    while_loop_seen_inv [of "initial_state b" E p]
  show ?thesis by (simp add: seen_inv_def)
next
  case False
  then show ?thesis by (simp add: run_session_no_token seen_inv_def)
qed

text \<open>How the function around the loop sets the loop up.\<close>

lemma fetch_state_windowed:
  "truthy_str d \<Longrightarrow> date_str_to_timestamps_for_day (the d) = Inr (s, e) \<Longrightarrow>
   truthy_int s \<Longrightarrow> truthy_int e \<Longrightarrow>
   fetch_barchart_news_state E d l tok =
     Inr (run_session E \<lparr>target_date_str = d, target_day_start_ts = s, target_day_end_ts = e,
            news_count_limit = l\<rparr> tok (initial_state (the e + 1)))"
  by (simp add: fetch_barchart_news_state_def)

lemma fetch_state_no_range:
  "truthy_str d \<Longrightarrow> date_str_to_timestamps_for_day (the d) = Inr (s, e) \<Longrightarrow>
   \<not> (truthy_int s \<and> truthy_int e) \<Longrightarrow>
   fetch_barchart_news_state E d l tok = Inr ((initial_state 0)\<lparr>printed := [CouldNotDetermineRange]\<rparr>)"
  by (simp add: fetch_barchart_news_state_def)

lemma fetch_state_raises:
  "truthy_str d \<Longrightarrow> date_str_to_timestamps_for_day (the d) = Inl x \<Longrightarrow>
   fetch_barchart_news_state E d l tok = Inl x"
  by (simp add: fetch_barchart_news_state_def)

lemma fetch_state_unbounded:
  "\<not> truthy_str d \<Longrightarrow>
   fetch_barchart_news_state E d l tok =
     Inr (run_session E \<lparr>target_date_str = d, target_day_start_ts = None,
            target_day_end_ts = None, news_count_limit = l\<rparr> tok (initial_state (utc_now E)))"
  by (simp add: fetch_barchart_news_state_def)

lemma fetch_state_cases:
  assumes "fetch_barchart_news_state E d l tok = Inr fin"
  shows "fin = (initial_state 0)\<lparr>printed := [CouldNotDetermineRange]\<rparr>
       \<or> (\<exists>p b. params_ok p \<and> target_date_str p = d \<and> news_count_limit p = l
              \<and> fin = run_session E p tok (initial_state b))"
proof (cases "truthy_str d")
  case True
  show ?thesis
  proof (cases "date_str_to_timestamps_for_day (the d)")
    case (Inl x)
    from fetch_state_raises [OF True Inl] assms show ?thesis by simp
  next
    case (Inr w)
    obtain s e where w: "w = (s, e)" by (cases w)
    show ?thesis
    proof (cases "truthy_int s \<and> truthy_int e")
      case False
      from fetch_state_no_range [OF True Inr [unfolded w] False] assms
      show ?thesis by simp
    next
      case ok: True
      let ?p = "\<lparr>target_date_str = d, target_day_start_ts = s, target_day_end_ts = e,
                 news_count_limit = l\<rparr>"
      from True ok have "params_ok ?p" by (simp add: params_ok_def)
      moreover from ok have "truthy_int s" and "truthy_int e" by simp_all
      from fetch_state_windowed [OF True Inr [unfolded w] this] assms
      have "fin = run_session E ?p tok (initial_state (the e + 1))" by simp
      ultimately have "params_ok ?p \<and> target_date_str ?p = d \<and> news_count_limit ?p = l
              \<and> fin = run_session E ?p tok (initial_state (the e + 1))" by simp
      then show ?thesis by blast
    qed
  qed
next
  case False
  let ?p = "\<lparr>target_date_str = d, target_day_start_ts = None, target_day_end_ts = None,
             news_count_limit = l\<rparr>"
  from False have "params_ok ?p" by (simp add: params_ok_def)
  moreover from fetch_state_unbounded [OF False] assms
  have "fin = run_session E ?p tok (initial_state (utc_now E))" by simp
  ultimately have "params_ok ?p \<and> target_date_str ?p = d \<and> news_count_limit ?p = l
              \<and> fin = run_session E ?p tok (initial_state (utc_now E))" by simp
  then show ?thesis by blast
qed

lemma fetch_state_seen_inv:
  "fetch_barchart_news_state E d l tok = Inr fin \<Longrightarrow> seen_inv fin"
proof -
  assume "fetch_barchart_news_state E d l tok = Inr fin"
  from fetch_state_cases [OF this] show ?thesis
  proof
    assume "fin = (initial_state 0)\<lparr>printed := [CouldNotDetermineRange]\<rparr>"
    then show ?thesis by (simp add: seen_inv_def)
  next
    assume "\<exists>p b. params_ok p \<and> target_date_str p = d \<and> news_count_limit p = l
              \<and> fin = run_session E p tok (initial_state b)"
    then show ?thesis using run_session_seen_inv by blast
  qed
qed

section \<open>A small recorded feed\<close>

text \<open>
  Concrete surroundings for the examples: a date parser that knows four date texts of
  the feed's format, and a service that answers the first two API calls with a page each.
\<close>

definition naive :: "int \<Rightarrow> int \<Rightarrow> int \<Rightarrow> int \<Rightarrow> int \<Rightarrow> datetime" where
  "naive y m d h mi =
     \<lparr>dt_year = y, dt_month = m, dt_day = d, dt_hour = h, dt_minute = mi, dt_second = 0,
      dt_microsecond = 0, dt_tzinfo = None\<rparr>"

definition demo_parse :: "string \<Rightarrow> datetime option" where
  "demo_parse s =
     (if s = ''Wed Jun 11, 9:00AM CDT'' then Some (naive 2025 6 11 9 0)
      else if s = ''Wed Jun 11, 8:00AM CDT'' then Some (naive 2025 6 11 8 0)
      else if s = ''Tue Jun 10, 5:00PM CDT'' then Some (naive 2025 6 10 17 0)
      else if s = ''Thu Jun 12, 9:00AM CDT'' then Some (naive 2025 6 12 9 0)
      else None)"

definition demo_story :: "string \<Rightarrow> string \<Rightarrow> string \<Rightarrow> story" where
  "demo_story nid feed date_text =
     \<lparr>link_and_meta = True, news_url = ''https://www.barchart.com/story/news/'' @ nid @ ''/s'',
      title = ''Story '' @ nid, news_id = Some nid, feed_name = feed,
      published_str_part = date_text, summary = []\<rparr>"

definition demo_feed :: "nat \<Rightarrow> int \<Rightarrow> response" where
  "demo_feed n b =
     (if n = 1 then
        Json \<lparr>content = Some [demo_story ''102'' ''Barchart'' ''Thu Jun 12, 9:00AM CDT'',
                 demo_story ''101'' ''Barchart'' ''Wed Jun 11, 9:00AM CDT'',
                 demo_story ''77'' ''Associated Press'' ''Wed Jun 11, 9:00AM CDT''],
              timestamp = Timestamp 1749650000\<rparr>
      else if n = 2 then
        Json \<lparr>content = Some [demo_story ''101'' ''Barchart'' ''Wed Jun 11, 9:00AM CDT'',
                 demo_story ''103'' ''Barchart'' ''Wed Jun 11, 8:00AM CDT'',
                 demo_story ''104'' ''Barchart'' ''Tue Jun 10, 5:00PM CDT'',
                 demo_story ''105'' ''Barchart'' ''Wed Jun 11, 8:00AM CDT''],
              timestamp = Timestamp 1749640000\<rparr>
      else FalsyJson)"

definition demo_env :: env where
  "demo_env =
     \<lparr>date_parser_parse = demo_parse, current_year = 2025, utc_now = 1749800000,
      get_initial_cookies_and_xsrf = Some ''token'', session_post = demo_feed,
      MAX_API_CALLS = 500\<rparr>"

definition demo_windowed :: params where
  "demo_windowed =
     \<lparr>target_date_str = Some ''20250611'', target_day_start_ts = Some 1749618000,
      target_day_end_ts = Some 1749704399, news_count_limit = 30\<rparr>"

lemma window_20250611:
  "date_str_to_timestamps_for_day ''20250611'' = Inr (Some 1749618000, Some 1749704399)"
  by (simp add: date_str_to_timestamps_for_day_def strptime_Ymd_def match_m_def match_d_def
      is_digit_def digit_val_def in_range_def days_in_month_def is_leap_def astimezone_utc_def
      utc_microseconds_def ymd2ord_def days_before_year_def days_before_month_def
      epoch_ordinal_def cdt_tz_def min_microseconds_def max_microseconds_def
      int_of_timestamp_def round_half_even_def Let_def bit_length.simps)

lemma lower_barchart: "py_lower ''Barchart'' = ''barchart''"
  by code_simp

lemma no_am_in_thu: "py_find (py_lower ''Thu Jun 12, 9:00AM CDT'') ''am'' = 16"
  by code_simp

lemma parse_thu:
  "parse_date_string_to_timestamp demo_parse 2025 ''Thu Jun 12, 9:00AM CDT'' = Some 1749736800"
  by (simp add: parse_date_string_to_timestamp_def demo_parse_def naive_def no_am_in_thu
      astimezone_utc_def
      utc_microseconds_def ymd2ord_def days_before_year_def days_before_month_def
      epoch_ordinal_def cdt_tz_def min_microseconds_def max_microseconds_def is_leap_def
      int_of_timestamp_def round_half_even_def Let_def bit_length.simps)

lemma candidate_thu:
  "candidate demo_env (demo_story ''102'' ''Barchart'' ''Thu Jun 12, 9:00AM CDT'')
     = Some (''102'', 1749736800)"
  by (simp add: candidate_def demo_env_def demo_story_def lower_barchart parse_thu)

section \<open>The seen ids and the collected items\<close>

lemma story_body_effect:
  "(all_news_items (flow_state (story_body E p st sd)) = all_news_items st
      \<and> processed_news_ids (flow_state (story_body E p st sd)) = processed_news_ids st)
   \<or> (\<exists>nid ts. candidate E sd = Some (nid, ts) \<and> nid \<notin> processed_news_ids st
         \<and> all_news_items (flow_state (story_body E p st sd))
             = all_news_items st @ [make_item sd nid ts]
         \<and> processed_news_ids (flow_state (story_body E p st sd))
             = insert nid (processed_news_ids st))"
  by (auto simp: story_body_def Let_def split: option.splits)

lemma story_body_rejected:
  "candidate E sd = Some (nid, ts) \<Longrightarrow>
   nid \<in> processed_news_ids st \<or> truthy_str (target_date_str p) \<and> \<not> in_target_range p ts \<Longrightarrow>
   all_news_items (flow_state (story_body E p st sd)) = all_news_items st
   \<and> processed_news_ids (flow_state (story_body E p st sd)) = processed_news_ids st"
  by (auto simp: story_body_def Let_def)

text \<open>
  Claim C10. An id enters \<^verbatim>\<open>processed_news_ids\<close> only together with the item
  that is appended to \<^verbatim>\<open>all_news_items\<close>: one step of the inner loop either
  leaves both unchanged or appends one item and inserts its id; a candidate whose id
  was already seen, or whose timestamp is outside the target range, leaves both
  unchanged. Hence the set of seen ids is the set of ids of the collected items at the
  start, after every story, after every page, at the end of the loop and in the state
  the function returns.
\<close>

theorem seen_ids_are_collected_ids:
  "seen_inv (initial_state b)
   \<and> (seen_inv st \<longrightarrow>
          seen_inv (flow_state (story_body E p st sd))
        \<and> seen_inv (story_loop E p st stories)
        \<and> seen_inv (while_body E p st)
        \<and> seen_inv (while_loop E p st))
   \<and> ((all_news_items (flow_state (story_body E p st sd)) = all_news_items st
          \<and> processed_news_ids (flow_state (story_body E p st sd)) = processed_news_ids st)
        \<or> (\<exists>nid ts. candidate E sd = Some (nid, ts) \<and> nid \<notin> processed_news_ids st
              \<and> all_news_items (flow_state (story_body E p st sd))
                  = all_news_items st @ [make_item sd nid ts]
              \<and> processed_news_ids (flow_state (story_body E p st sd))
                  = insert nid (processed_news_ids st)))
   \<and> (candidate E sd = Some (nid', ts')
          \<and> (nid' \<in> processed_news_ids st
               \<or> truthy_str (target_date_str p) \<and> \<not> in_target_range p ts')
        \<longrightarrow> all_news_items (flow_state (story_body E p st sd)) = all_news_items st
          \<and> processed_news_ids (flow_state (story_body E p st sd)) = processed_news_ids st)
   \<and> (fetch_barchart_news_state E d l tok = Inr fin \<longrightarrow> seen_inv fin)"
proof -
  have "seen_inv (initial_state b)" by (simp add: seen_inv_def)
  moreover have "seen_inv st \<longrightarrow>
          seen_inv (flow_state (story_body E p st sd))
        \<and> seen_inv (story_loop E p st stories)
        \<and> seen_inv (while_body E p st)
        \<and> seen_inv (while_loop E p st)"
    by (simp add: story_body_seen_inv story_loop_seen_inv while_body_seen_inv
        while_loop_seen_inv)
  moreover note story_body_effect [of E p st sd]
  moreover have "candidate E sd = Some (nid', ts')
          \<and> (nid' \<in> processed_news_ids st
               \<or> truthy_str (target_date_str p) \<and> \<not> in_target_range p ts')
        \<longrightarrow> all_news_items (flow_state (story_body E p st sd)) = all_news_items st
          \<and> processed_news_ids (flow_state (story_body E p st sd)) = processed_news_ids st"
    using story_body_rejected [of E sd nid' ts' st p] by blast
  moreover have "fetch_barchart_news_state E d l tok = Inr fin \<longrightarrow> seen_inv fin"
    using fetch_state_seen_inv by blast
  ultimately show ?thesis by blast
qed

theorem seen_ids_are_collected_ids_witness:
  "seen_inv (initial_state 1749704400)
   \<and> seen_inv (story_loop demo_env demo_windowed (initial_state 1749704400)
        [demo_story ''102'' ''Barchart'' ''Thu Jun 12, 9:00AM CDT''])
   \<and> seen_inv (while_loop demo_env demo_windowed (initial_state 1749704400))
   \<and> candidate demo_env (demo_story ''102'' ''Barchart'' ''Thu Jun 12, 9:00AM CDT'')
        = Some (''102'', 1749736800)
   \<and> truthy_str (target_date_str demo_windowed)
   \<and> \<not> in_target_range demo_windowed 1749736800
   \<and> all_news_items (flow_state (story_body demo_env demo_windowed (initial_state 1749704400)
        (demo_story ''102'' ''Barchart'' ''Thu Jun 12, 9:00AM CDT''))) = []
   \<and> processed_news_ids (flow_state (story_body demo_env demo_windowed
        (initial_state 1749704400)
        (demo_story ''102'' ''Barchart'' ''Thu Jun 12, 9:00AM CDT''))) = {}
   \<and> fetch_barchart_news_state demo_env (Some ''20250611'') 30 None
        = Inr (run_session demo_env demo_windowed None (initial_state 1749704400))
   \<and> seen_inv (run_session demo_env demo_windowed None (initial_state 1749704400))"
proof -
  have h1: "seen_inv (initial_state 1749704400)" by (simp add: seen_inv_def)
  have h2: "truthy_str (target_date_str demo_windowed)
      \<and> \<not> in_target_range demo_windowed 1749736800"
    by (simp add: demo_windowed_def in_target_range_def)
  have h3: "fetch_barchart_news_state demo_env (Some ''20250611'') 30 None
        = Inr (run_session demo_env demo_windowed None (initial_state 1749704400))"
    using fetch_state_windowed [of "Some ''20250611''" "Some 1749618000" "Some 1749704399"
        demo_env 30 None]
    by (simp add: window_20250611 demo_windowed_def)
  from seen_ids_are_collected_ids [of 1749704400 "initial_state 1749704400" demo_env
      demo_windowed "demo_story ''102'' ''Barchart'' ''Thu Jun 12, 9:00AM CDT''"
      "[demo_story ''102'' ''Barchart'' ''Thu Jun 12, 9:00AM CDT'']"
      "''102''" 1749736800 "Some ''20250611''" 30 None
      "run_session demo_env demo_windowed None (initial_state 1749704400)"]
    h1 h2 h3 candidate_thu
  show ?thesis by simp
qed

section \<open>Further facts about the two loops\<close>

text \<open>Whether a story makes the inner loop break.\<close>

definition breaks :: "env \<Rightarrow> params \<Rightarrow> story \<Rightarrow> bool" where
  "breaks E p sd =
     (case candidate E sd of None \<Rightarrow> False | Some (nid, ts) \<Rightarrow> older_than_target_start p ts)"

lemma story_body_breaks:
  "breaks E p sd \<Longrightarrow> candidate E sd = Some (nid, ts) \<Longrightarrow>
   story_body E p st sd =
     Break ((note_earliest st ts)\<lparr>stop_fetching := True,
              printed := printed st @ [OlderThanTargetStart]\<rparr>)"
  by (simp add: story_body_def breaks_def Let_def)

lemma story_body_continues:
  "\<not> breaks E p sd \<Longrightarrow> \<exists>st'. story_body E p st sd = Continue st'
     \<and> stop_fetching st' = stop_fetching st \<and> printed st' = printed st"
  by (auto simp: story_body_def breaks_def Let_def split: option.splits)

lemma story_body_frame:
  "requests (flow_state (story_body E p st sd)) = requests st
   \<and> api_call_num (flow_state (story_body E p st sd)) = api_call_num st
   \<and> current_before_timestamp (flow_state (story_body E p st sd)) = current_before_timestamp st"
  by (auto simp: story_body_def Let_def split: option.splits)

lemma story_loop_frame:
  "requests (story_loop E p st stories) = requests st
   \<and> api_call_num (story_loop E p st stories) = api_call_num st
   \<and> current_before_timestamp (story_loop E p st stories) = current_before_timestamp st"
proof (induction stories arbitrary: st)
  case Nil
  show ?case by simp
next
  case (Cons sd stories)
  show ?case
  proof (cases "story_body E p st sd")
    case (Continue st')
    with Cons.IH [of st'] story_body_frame [of E p st sd] show ?thesis by simp
  next
    case (Break st')
    with story_body_frame [of E p st sd] show ?thesis by simp
  qed
qed

lemma story_loop_no_break:
  "\<forall>sd \<in> set stories. \<not> breaks E p sd \<Longrightarrow>
   stop_fetching (story_loop E p st stories) = stop_fetching st
   \<and> printed (story_loop E p st stories) = printed st"
proof (induction stories arbitrary: st)
  case Nil
  show ?case by simp
next
  case (Cons sd stories)
  from Cons.prems have "\<not> breaks E p sd" by simp
  from story_body_continues [OF this, of st] obtain st' where
    st': "story_body E p st sd = Continue st'" "stop_fetching st' = stop_fetching st"
      "printed st' = printed st"
    by blast
  from Cons.prems have "\<forall>sd \<in> set stories. \<not> breaks E p sd" by simp
  from Cons.IH [OF this, of st'] st' show ?case by simp
qed

lemma story_loop_append:
  "\<forall>sd \<in> set pre. \<not> breaks E p sd \<Longrightarrow>
   story_loop E p st (pre @ rest) = story_loop E p (story_loop E p st pre) rest"
proof (induction pre arbitrary: st)
  case Nil
  show ?case by simp
next
  case (Cons sd pre)
  from Cons.prems have "\<not> breaks E p sd" by simp
  from story_body_continues [OF this, of st] obtain st' where
    st': "story_body E p st sd = Continue st'"
    by blast
  from Cons.prems have "\<forall>sd \<in> set pre. \<not> breaks E p sd" by simp
  from Cons.IH [OF this, of st'] st' show ?case by simp
qed

text \<open>The first story that breaks the loop ends it; what follows it is not looked at.\<close>

lemma story_loop_first_break:
  assumes "\<forall>s \<in> set pre. \<not> breaks E p s" and "breaks E p sd"
    and "candidate E sd = Some (nid, ts)"
  shows "story_loop E p st (pre @ sd # post) =
     (note_earliest (story_loop E p st pre) ts)\<lparr>stop_fetching := True,
        printed := printed st @ [OlderThanTargetStart]\<rparr>"
proof -
  from story_loop_no_break [OF assms(1), of st]
  have "printed (story_loop E p st pre) = printed st" by simp
  with story_loop_append [OF assms(1), of st "sd # post"]
    story_body_breaks [OF assms(2,3), of "story_loop E p st pre"]
  show ?thesis by simp
qed

text \<open>
  The inner loop reads and writes only the collected items and the seen ids, as far as
  these two are concerned.
\<close>

lemma story_body_items_cong:
  assumes "all_news_items st' = all_news_items st"
    and "processed_news_ids st' = processed_news_ids st"
  shows "(\<exists>a b. story_body E p st sd = Continue a \<and> story_body E p st' sd = Continue b
            \<and> all_news_items b = all_news_items a
            \<and> processed_news_ids b = processed_news_ids a)
       \<or> (\<exists>a b. story_body E p st sd = Break a \<and> story_body E p st' sd = Break b
            \<and> all_news_items b = all_news_items a
            \<and> processed_news_ids b = processed_news_ids a)"
  using assms by (auto simp: story_body_def Let_def split: option.splits)

lemma story_loop_items_cong:
  "all_news_items st' = all_news_items st \<Longrightarrow>
   processed_news_ids st' = processed_news_ids st \<Longrightarrow>
   all_news_items (story_loop E p st' stories) = all_news_items (story_loop E p st stories)
   \<and> processed_news_ids (story_loop E p st' stories)
       = processed_news_ids (story_loop E p st stories)"
proof (induction stories arbitrary: st st')
  case Nil
  then show ?case by simp
next
  case (Cons sd stories)
  from story_body_items_cong [OF Cons.prems, of E p sd] show ?case
  proof
    assume "\<exists>a b. story_body E p st sd = Continue a \<and> story_body E p st' sd = Continue b
            \<and> all_news_items b = all_news_items a
            \<and> processed_news_ids b = processed_news_ids a"
    then obtain a b where ab: "story_body E p st sd = Continue a"
      "story_body E p st' sd = Continue b" "all_news_items b = all_news_items a"
      "processed_news_ids b = processed_news_ids a"
      by blast
    from Cons.IH [OF ab(3,4)] ab(1,2) show ?thesis by simp
  next
    assume "\<exists>a b. story_body E p st sd = Break a \<and> story_body E p st' sd = Break b
            \<and> all_news_items b = all_news_items a
            \<and> processed_news_ids b = processed_news_ids a"
    then show ?thesis by auto
  qed
qed

text \<open>The state with which the inner loop starts on the page of one API call.\<close>

definition begin_call :: "state \<Rightarrow> state" where
  "begin_call st =
     st\<lparr>api_call_num := Suc (api_call_num st),
        requests := requests st @ [current_before_timestamp st],
        earliest_valid_ts_in_batch_for_fallback := None\<rparr>"

lemma begin_call_fields [simp]:
  "all_news_items (begin_call st) = all_news_items st"
  "processed_news_ids (begin_call st) = processed_news_ids st"
  "api_call_num (begin_call st) = Suc (api_call_num st)"
  "stop_fetching (begin_call st) = stop_fetching st"
  "requests (begin_call st) = requests st @ [current_before_timestamp st]"
  "printed (begin_call st) = printed st"
  "current_before_timestamp (begin_call st) = current_before_timestamp st"
  by (simp_all add: begin_call_def)

lemma while_body_page:
  assumes "session_post E (Suc (api_call_num st)) (current_before_timestamp st) = Json pg"
    and "content pg = Some stories"
  shows "while_body E p st =
     (let st3 = story_loop E p (begin_call st) stories
      in if stop_fetching st3 then st3
         else
           (let st4 = next_before_timestamp st3 (timestamp pg)
            in if \<not> truthy_str (target_date_str p)
                  \<and> news_count_limit p \<le> int (length (all_news_items st4))
               then stop_with ReachedNewsCountLimit st4
               else st4))"
  using assms by (simp add: while_body_def Let_def begin_call_def)

lemma while_loop_once:
  "\<not> stop_fetching st \<Longrightarrow> api_call_num st < MAX_API_CALLS E \<Longrightarrow>
   stop_fetching (while_body E p st) \<Longrightarrow> while_loop E p st = while_body E p st"
  by (simp add: while_loop_step while_loop_stop)

lemma while_body_requests:
  "requests (while_body E p st) = requests st @ [current_before_timestamp st]"
proof (cases "session_post E (Suc (api_call_num st)) (current_before_timestamp st)")
  case (Json pg)
  show ?thesis
  proof (cases "content pg")
    case None
    with Json show ?thesis
      by (simp add: while_body_def Let_def stop_with_def next_before_timestamp_def
          split: timestamp_field.splits)
  next
    case (Some stories)
    from story_loop_frame [of E p "begin_call st" stories]
    have "requests (story_loop E p (begin_call st) stories)
        = requests st @ [current_before_timestamp st]"
      by simp
    with while_body_page [OF Json Some, of p] show ?thesis
      by (simp add: Let_def stop_with_def next_before_timestamp_def
          split: timestamp_field.splits)
  qed
qed (simp_all add: while_body_def Let_def stop_with_def)

lemma while_body_empty_page:
  assumes "session_post E (Suc (api_call_num st)) (current_before_timestamp st) = Json pg"
    and "content pg = None" and "timestamp pg = NoTimestamp"
  shows "while_body E p st =
     (begin_call st)\<lparr>stop_fetching := True, printed := printed st @ [NoMoreOlderNews]\<rparr>"
  using assms by (simp add: while_body_def Let_def stop_with_def begin_call_def)

section \<open>Evaluating the recorded feed\<close>

lemmas ts_eval = parse_date_string_to_timestamp_def demo_parse_def naive_def
      astimezone_utc_def
      utc_microseconds_def ymd2ord_def days_before_year_def days_before_month_def
      epoch_ordinal_def cdt_tz_def min_microseconds_def max_microseconds_def is_leap_def
      int_of_timestamp_def round_half_even_def Let_def bit_length.simps

lemma am_wed9: "py_find (py_lower ''Wed Jun 11, 9:00AM CDT'') ''am'' = 16"
  by code_simp
lemma am_wed8: "py_find (py_lower ''Wed Jun 11, 8:00AM CDT'') ''am'' = 16"
  by code_simp
lemma pm_tue: "py_find (py_lower ''Tue Jun 10, 5:00PM CDT'') ''am'' = -1 \<and> py_find (py_lower ''Tue Jun 10, 5:00PM CDT'') ''pm'' = 16"
  by code_simp

lemma parse_wed9:
  "parse_date_string_to_timestamp demo_parse 2025 ''Wed Jun 11, 9:00AM CDT'' = Some 1749650400"
  by (simp add: ts_eval am_wed9)
lemma parse_wed8:
  "parse_date_string_to_timestamp demo_parse 2025 ''Wed Jun 11, 8:00AM CDT'' = Some 1749646800"
  by (simp add: ts_eval am_wed8)
lemma parse_tue:
  "parse_date_string_to_timestamp demo_parse 2025 ''Tue Jun 10, 5:00PM CDT'' = Some 1749592800"
  by (simp add: ts_eval pm_tue)

lemma lower_ap: "py_lower ''Associated Press'' = ''associated press''"
  by code_simp

lemma candidate_demo:
  "candidate demo_env (demo_story nid ''Barchart'' ''Wed Jun 11, 9:00AM CDT'')
     = (if nid = [] then None else Some (nid, 1749650400))"
  "candidate demo_env (demo_story nid ''Barchart'' ''Wed Jun 11, 8:00AM CDT'')
     = (if nid = [] then None else Some (nid, 1749646800))"
  "candidate demo_env (demo_story nid ''Barchart'' ''Tue Jun 10, 5:00PM CDT'')
     = (if nid = [] then None else Some (nid, 1749592800))"
  "candidate demo_env (demo_story nid ''Barchart'' ''Thu Jun 12, 9:00AM CDT'')
     = (if nid = [] then None else Some (nid, 1749736800))"
  "candidate demo_env (demo_story nid ''Associated Press'' dtxt) = None"
  by (simp_all add: candidate_def demo_env_def demo_story_def lower_barchart lower_ap
      parse_wed9 parse_wed8 parse_tue parse_thu)

lemma demo_env_fields:
  "session_post demo_env = demo_feed" "MAX_API_CALLS demo_env = 500"
  "get_initial_cookies_and_xsrf demo_env = Some ''token''" "utc_now demo_env = 1749800000"
  by (simp_all add: demo_env_def)

lemma demo_run_windowed:
  "while_loop demo_env demo_windowed (initial_state 1749704400) =
     \<lparr>current_before_timestamp = 1749650000,
      all_news_items =
        [make_item (demo_story ''101'' ''Barchart'' ''Wed Jun 11, 9:00AM CDT'') ''101'' 1749650400,
         make_item (demo_story ''103'' ''Barchart'' ''Wed Jun 11, 8:00AM CDT'') ''103'' 1749646800],
      processed_news_ids = {''101'', ''103''},
      api_call_num = 2, stop_fetching = True,
      earliest_valid_ts_in_batch_for_fallback = Some 1749592800,
      requests = [1749704400, 1749650000], printed = [OlderThanTargetStart]\<rparr>"
  by (simp add: while_loop.simps while_body_def initial_state_def demo_env_fields demo_feed_def
      story_body_def candidate_demo note_earliest_def older_than_target_start_def
      in_target_range_def demo_windowed_def stop_with_def next_before_timestamp_def Let_def
      insert_commute)

definition demo_unbounded :: params where
  "demo_unbounded =
     \<lparr>target_date_str = None, target_day_start_ts = None, target_day_end_ts = None,
      news_count_limit = 30\<rparr>"

lemma demo_harvest_windowed:
  "fetch_barchart_news_state demo_env (Some ''20250611'') 30 None
     = Inr (run_session demo_env demo_windowed None (initial_state 1749704400))"
  using fetch_state_windowed [of "Some ''20250611''" "Some 1749618000" "Some 1749704399"
      demo_env 30 None]
  by (simp add: window_20250611 demo_windowed_def)

lemma demo_session_windowed:
  "map published_timestamp_utc
     (all_news_items (run_session demo_env demo_windowed None (initial_state 1749704400)))
     = [1749650400, 1749646800]"
proof -
  have "params_ok demo_windowed" by (simp add: params_ok_def demo_windowed_def)
  moreover have "truthy_str (if truthy_str None then None
      else get_initial_cookies_and_xsrf demo_env)"
    by (simp add: demo_env_fields)
  ultimately show ?thesis
    using run_session_items [of demo_windowed None demo_env 1749704400]
    by (simp add: demo_run_windowed make_item_def)
qed

section \<open>Stopping below the window\<close>

text \<open>
  Claim C3. With a target date, let the page of an API call hold a candidate whose
  timestamp is below the start of the window, the first such in the page. Then the
  loop ends with this call: the message that the item is older than the target start
  is printed, no further request is made, and the collected items are those that the
  stories before the candidate produce; the stories after it are not looked at.
\<close>

theorem below_window_stops_harvest:
  assumes "params_ok p" and "truthy_str (target_date_str p)"
    and "target_day_start_ts p = Some start"
    and "\<not> stop_fetching st" and "api_call_num st < MAX_API_CALLS E"
    and "session_post E (Suc (api_call_num st)) (current_before_timestamp st) = Json pg"
    and "content pg = Some (pre @ sd # post)"
    and "candidate E sd = Some (nid, ts)" and "ts < start"
    and "\<forall>s \<in> set pre. \<forall>n t. candidate E s = Some (n, t) \<longrightarrow> start \<le> t"
  shows "printed (while_loop E p st) = printed st @ [OlderThanTargetStart]
     \<and> stop_fetching (while_loop E p st)
     \<and> requests (while_loop E p st) = requests st @ [current_before_timestamp st]
     \<and> api_call_num (while_loop E p st) = Suc (api_call_num st)
     \<and> all_news_items (while_loop E p st) = all_news_items (story_loop E p st pre)
     \<and> processed_news_ids (while_loop E p st) = processed_news_ids (story_loop E p st pre)"
proof -
  from assms(1,2,3) have start: "start \<noteq> 0" by (simp add: params_ok_def)
  with assms(3,8,9) have brk: "breaks E p sd"
    by (simp add: breaks_def older_than_target_start_def)
  from assms(3,10) have pre: "\<forall>s \<in> set pre. \<not> breaks E p s"
    by (auto simp: breaks_def older_than_target_start_def split: option.splits)
  let ?st2 = "begin_call st"
  let ?st3 = "story_loop E p ?st2 (pre @ sd # post)"
  from story_loop_first_break [OF pre brk assms(8), of ?st2 post]
  have st3: "?st3 = (note_earliest (story_loop E p ?st2 pre) ts)\<lparr>stop_fetching := True,
        printed := printed st @ [OlderThanTargetStart]\<rparr>"
    by simp
  then have stop3: "stop_fetching ?st3" by simp
  with while_body_page [OF assms(6,7), of p] have body: "while_body E p st = ?st3"
    by (simp add: Let_def)
  with stop3 assms(4,5) have loop: "while_loop E p st = ?st3"
    by (simp add: while_loop_once)
  from story_loop_frame [of E p ?st2 pre]
  have frame: "requests (story_loop E p ?st2 pre) = requests st @ [current_before_timestamp st]"
    "api_call_num (story_loop E p ?st2 pre) = Suc (api_call_num st)"
    by simp_all
  from story_loop_items_cong [of ?st2 st E p pre]
  have items: "all_news_items (story_loop E p ?st2 pre) = all_news_items (story_loop E p st pre)"
    "processed_news_ids (story_loop E p ?st2 pre) = processed_news_ids (story_loop E p st pre)"
    by simp_all
  from loop st3 frame items show ?thesis by simp
qed

theorem below_window_stops_harvest_witness:
  "params_ok demo_windowed \<and> truthy_str (target_date_str demo_windowed)
   \<and> target_day_start_ts demo_windowed = Some 1749618000
   \<and> while_body demo_env demo_windowed (initial_state 1749704400) =
       \<lparr>current_before_timestamp = 1749650000,
        all_news_items =
          [make_item (demo_story ''101'' ''Barchart'' ''Wed Jun 11, 9:00AM CDT'') ''101'' 1749650400],
        processed_news_ids = {''101''}, api_call_num = 1, stop_fetching = False,
        earliest_valid_ts_in_batch_for_fallback = Some 1749650400,
        requests = [1749704400], printed = []\<rparr>
   \<and> session_post demo_env 2 1749650000 =
       Json \<lparr>content = Some ([demo_story ''101'' ''Barchart'' ''Wed Jun 11, 9:00AM CDT'',
                 demo_story ''103'' ''Barchart'' ''Wed Jun 11, 8:00AM CDT'']
                 @ demo_story ''104'' ''Barchart'' ''Tue Jun 10, 5:00PM CDT''
                 # [demo_story ''105'' ''Barchart'' ''Wed Jun 11, 8:00AM CDT'']),
              timestamp = Timestamp 1749640000\<rparr>
   \<and> candidate demo_env (demo_story ''104'' ''Barchart'' ''Tue Jun 10, 5:00PM CDT'')
       = Some (''104'', 1749592800)
   \<and> candidate demo_env (demo_story ''105'' ''Barchart'' ''Wed Jun 11, 8:00AM CDT'')
       = Some (''105'', 1749646800)
   \<and> in_target_range demo_windowed 1749646800
   \<and> printed (while_loop demo_env demo_windowed
        (while_body demo_env demo_windowed (initial_state 1749704400))) = [OlderThanTargetStart]
   \<and> requests (while_loop demo_env demo_windowed
        (while_body demo_env demo_windowed (initial_state 1749704400)))
       = [1749704400, 1749650000]
   \<and> map item_id (all_news_items (while_loop demo_env demo_windowed
        (while_body demo_env demo_windowed (initial_state 1749704400)))) = [''101'', ''103'']"
proof -
  let ?st = "while_body demo_env demo_windowed (initial_state 1749704400)"
  let ?pre = "[demo_story ''101'' ''Barchart'' ''Wed Jun 11, 9:00AM CDT'',
               demo_story ''103'' ''Barchart'' ''Wed Jun 11, 8:00AM CDT'']"
  let ?sd = "demo_story ''104'' ''Barchart'' ''Tue Jun 10, 5:00PM CDT''"
  let ?post = "[demo_story ''105'' ''Barchart'' ''Wed Jun 11, 8:00AM CDT'']"
  let ?pg = "\<lparr>content = Some (?pre @ ?sd # ?post), timestamp = Timestamp 1749640000\<rparr>"
  have st: "?st =
       \<lparr>current_before_timestamp = 1749650000,
        all_news_items =
          [make_item (demo_story ''101'' ''Barchart'' ''Wed Jun 11, 9:00AM CDT'') ''101'' 1749650400],
        processed_news_ids = {''101''}, api_call_num = 1, stop_fetching = False,
        earliest_valid_ts_in_batch_for_fallback = Some 1749650400,
        requests = [1749704400], printed = []\<rparr>"
    by (simp add: while_body_def initial_state_def demo_env_fields demo_feed_def
        story_body_def candidate_demo note_earliest_def older_than_target_start_def
        in_target_range_def demo_windowed_def stop_with_def next_before_timestamp_def Let_def)
  have p: "params_ok demo_windowed \<and> truthy_str (target_date_str demo_windowed)
      \<and> target_day_start_ts demo_windowed = Some 1749618000
      \<and> in_target_range demo_windowed 1749646800"
    by (simp add: params_ok_def demo_windowed_def in_target_range_def)
  have post: "session_post demo_env 2 1749650000 = Json ?pg"
    by (simp add: demo_env_fields demo_feed_def)
  have h: "\<not> stop_fetching ?st" "api_call_num ?st < MAX_API_CALLS demo_env"
    "session_post demo_env (Suc (api_call_num ?st)) (current_before_timestamp ?st) = Json ?pg"
    "content ?pg = Some (?pre @ ?sd # ?post)"
    unfolding st by (simp_all add: demo_env_fields demo_feed_def)
  have c: "candidate demo_env ?sd = Some (''104'', 1749592800)"
    "candidate demo_env (demo_story ''105'' ''Barchart'' ''Wed Jun 11, 8:00AM CDT'')
       = Some (''105'', 1749646800)"
    "\<forall>s \<in> set ?pre. \<forall>n t. candidate demo_env s = Some (n, t) \<longrightarrow> 1749618000 \<le> t"
    by (simp_all add: candidate_demo)
  have pre: "map item_id (all_news_items (story_loop demo_env demo_windowed ?st ?pre))
      = [''101'', ''103'']"
    unfolding st
    by (simp add: story_body_def candidate_demo note_earliest_def
        older_than_target_start_def in_target_range_def demo_windowed_def Let_def make_item_def)
  from below_window_stops_harvest [of demo_windowed 1749618000 ?st demo_env ?pg ?pre ?sd ?post
      "''104''" 1749592800] p h c
  have "printed (while_loop demo_env demo_windowed ?st) = printed ?st @ [OlderThanTargetStart]
     \<and> requests (while_loop demo_env demo_windowed ?st)
         = requests ?st @ [current_before_timestamp ?st]
     \<and> all_news_items (while_loop demo_env demo_windowed ?st)
         = all_news_items (story_loop demo_env demo_windowed ?st ?pre)"
    by simp
  moreover have "printed ?st = [] \<and> requests ?st = [1749704400]
     \<and> current_before_timestamp ?st = 1749650000"
    unfolding st by simp
  ultimately
  have "printed (while_loop demo_env demo_windowed ?st) = [OlderThanTargetStart]
     \<and> requests (while_loop demo_env demo_windowed ?st) = [1749704400, 1749650000]
     \<and> map item_id (all_news_items (while_loop demo_env demo_windowed ?st)) = [''101'', ''103'']"
    using pre by simp
  with st p post c(1,2) show ?thesis by simp
qed

section \<open>The window of the returned items\<close>

lemma final_filter_in_range:
  "truthy_int (target_day_start_ts p) \<Longrightarrow> truthy_int (target_day_end_ts p) \<Longrightarrow>
   list_all (\<lambda>item. in_target_range p (published_timestamp_utc item)) (final_filter p items)"
  by (simp add: final_filter_def list_all_iff)

lemma run_session_in_range:
  "truthy_int (target_day_start_ts p) \<Longrightarrow> truthy_int (target_day_end_ts p) \<Longrightarrow>
   list_all (\<lambda>item. in_target_range p (published_timestamp_utc item))
     (all_news_items (run_session E p tok st0))"
  by (simp add: run_session_def Let_def final_filter_in_range)

lemma fetch_windowed_in_range:
  assumes "fetch_barchart_news_state E d l tok = Inr fin" and "truthy_str d"
    and "date_str_to_timestamps_for_day (the d) = Inr (Some start, Some end)"
  shows "list_all (\<lambda>item. start \<le> published_timestamp_utc item
            \<and> published_timestamp_utc item \<le> end) (all_news_items fin)"
proof (cases "start \<noteq> 0 \<and> end \<noteq> 0")
  case True
  let ?p = "\<lparr>target_date_str = d, target_day_start_ts = Some start,
             target_day_end_ts = Some end, news_count_limit = l\<rparr>"
  from True fetch_state_windowed [OF assms(2,3), of E l tok] assms(1)
  have "fin = run_session E ?p tok (initial_state (end + 1))" by simp
  moreover from True
  have "list_all (\<lambda>item. in_target_range ?p (published_timestamp_utc item))
     (all_news_items (run_session E ?p tok (initial_state (end + 1))))"
    by (intro run_session_in_range) simp_all
  ultimately show ?thesis by (simp add: in_target_range_def)
next
  case False
  with fetch_state_no_range [OF assms(2,3), of E l tok] assms(1)
  have "fin = (initial_state 0)\<lparr>printed := [CouldNotDetermineRange]\<rparr>" by auto
  then show ?thesis by simp
qed

lemma story_body_accepts_unbounded:
  "\<not> truthy_str (target_date_str p) \<Longrightarrow> target_day_start_ts p = None \<Longrightarrow>
   candidate E sd = Some (nid, ts) \<Longrightarrow> nid \<notin> processed_news_ids st \<Longrightarrow>
   story_body E p st sd =
     Continue ((note_earliest st ts)\<lparr>all_news_items := all_news_items st @ [make_item sd nid ts],
                 processed_news_ids := insert nid (processed_news_ids st)\<rparr>)"
  by (simp add: story_body_def Let_def older_than_target_start_def)

lemma fetch_unbounded_unfiltered:
  assumes "\<not> truthy_str d"
    and "truthy_str (if truthy_str tok then tok else get_initial_cookies_and_xsrf E)"
  shows "fetch_barchart_news E d l tok =
     Inr (all_news_items (while_loop E
        \<lparr>target_date_str = d, target_day_start_ts = None, target_day_end_ts = None,
         news_count_limit = l\<rparr> (initial_state (utc_now E))))"
proof -
  let ?p = "\<lparr>target_date_str = d, target_day_start_ts = None, target_day_end_ts = None,
             news_count_limit = l\<rparr>"
  from assms(1) have "params_ok ?p" by (simp add: params_ok_def)
  from run_session_items [OF this assms(2), of "utc_now E"] fetch_state_unbounded [OF assms(1), of E l tok]
  show ?thesis by (simp add: fetch_barchart_news_def)
qed

text \<open>
  Claim C6. With a target date whose window is \<open>[start, end]\<close>, every returned item has
  its timestamp in the window: every item the inner loop appends is in the target range,
  and the final check filters the list once more. Without a target date no timestamp is
  compared: every candidate with an unseen id is appended, and the list the loop
  collected is returned as it is.
\<close>

theorem window_containment:
  "(fetch_barchart_news_state E d l tok = Inr fin \<and> truthy_str d
      \<and> date_str_to_timestamps_for_day (the d) = Inr (Some start, Some end)
     \<longrightarrow> (\<forall>item \<in> set (all_news_items fin).
            start \<le> published_timestamp_utc item \<and> published_timestamp_utc item \<le> end))
   \<and> (truthy_str (target_date_str p) \<and> all_in_range p st
     \<longrightarrow> all_in_range p (flow_state (story_body E p st sd))
         \<and> all_in_range p (while_loop E p st))
   \<and> (truthy_int (target_day_start_ts p) \<and> truthy_int (target_day_end_ts p)
     \<longrightarrow> all_in_range p (run_session E p tok st))
   \<and> (\<not> truthy_str (target_date_str p) \<and> target_day_start_ts p = None
        \<and> candidate E sd = Some (nid, ts) \<and> nid \<notin> processed_news_ids st
     \<longrightarrow> all_news_items (flow_state (story_body E p st sd))
           = all_news_items st @ [make_item sd nid ts])
   \<and> (\<not> truthy_str d
        \<and> truthy_str (if truthy_str tok then tok else get_initial_cookies_and_xsrf E)
     \<longrightarrow> fetch_barchart_news E d l tok =
           Inr (all_news_items (while_loop E
             \<lparr>target_date_str = d, target_day_start_ts = None, target_day_end_ts = None,
              news_count_limit = l\<rparr> (initial_state (utc_now E)))))"
proof -
  have "fetch_barchart_news_state E d l tok = Inr fin \<and> truthy_str d
      \<and> date_str_to_timestamps_for_day (the d) = Inr (Some start, Some end)
     \<longrightarrow> (\<forall>item \<in> set (all_news_items fin).
            start \<le> published_timestamp_utc item \<and> published_timestamp_utc item \<le> end)"
    using fetch_windowed_in_range [of E d l tok fin start "end"]
    by (simp add: list_all_iff)
  moreover have "truthy_str (target_date_str p) \<and> all_in_range p st
     \<longrightarrow> all_in_range p (flow_state (story_body E p st sd))
         \<and> all_in_range p (while_loop E p st)"
    by (simp add: story_body_all_in_range while_loop_all_in_range)
  moreover have "truthy_int (target_day_start_ts p) \<and> truthy_int (target_day_end_ts p)
     \<longrightarrow> all_in_range p (run_session E p tok st)"
    by (simp add: all_in_range_def run_session_in_range)
  moreover have "\<not> truthy_str (target_date_str p) \<and> target_day_start_ts p = None
        \<and> candidate E sd = Some (nid, ts) \<and> nid \<notin> processed_news_ids st
     \<longrightarrow> all_news_items (flow_state (story_body E p st sd))
           = all_news_items st @ [make_item sd nid ts]"
    by (simp add: story_body_accepts_unbounded)
  moreover have "\<not> truthy_str d
        \<and> truthy_str (if truthy_str tok then tok else get_initial_cookies_and_xsrf E)
     \<longrightarrow> fetch_barchart_news E d l tok =
           Inr (all_news_items (while_loop E
             \<lparr>target_date_str = d, target_day_start_ts = None, target_day_end_ts = None,
              news_count_limit = l\<rparr> (initial_state (utc_now E))))"
    using fetch_unbounded_unfiltered [of d tok E l] by blast
  ultimately show ?thesis by blast
qed

theorem window_containment_witness:
  "fetch_barchart_news_state demo_env (Some ''20250611'') 30 None
     = Inr (run_session demo_env demo_windowed None (initial_state 1749704400))
   \<and> truthy_str (Some ''20250611'')
   \<and> date_str_to_timestamps_for_day (the (Some ''20250611''))
       = Inr (Some 1749618000, Some 1749704399)
   \<and> map published_timestamp_utc
        (all_news_items (run_session demo_env demo_windowed None (initial_state 1749704400)))
       = [1749650400, 1749646800]
   \<and> list_all (\<lambda>item. 1749618000 \<le> published_timestamp_utc item
          \<and> published_timestamp_utc item \<le> 1749704399)
        (all_news_items (run_session demo_env demo_windowed None (initial_state 1749704400)))
   \<and> target_day_start_ts demo_unbounded = None
   \<and> candidate demo_env (demo_story ''104'' ''Barchart'' ''Tue Jun 10, 5:00PM CDT'')
       = Some (''104'', 1749592800)
   \<and> ''104'' \<notin> processed_news_ids (initial_state 1749800000)
   \<and> all_news_items (flow_state (story_body demo_env demo_unbounded (initial_state 1749800000)
        (demo_story ''104'' ''Barchart'' ''Tue Jun 10, 5:00PM CDT'')))
       = [make_item (demo_story ''104'' ''Barchart'' ''Tue Jun 10, 5:00PM CDT'') ''104''
            1749592800]
   \<and> fetch_barchart_news demo_env None 30 None
       = Inr (all_news_items (while_loop demo_env demo_unbounded (initial_state 1749800000)))"
proof -
  have u: "\<not> truthy_str (target_date_str demo_unbounded)
      \<and> target_day_start_ts demo_unbounded = None"
    by (simp add: demo_unbounded_def)
  have c: "candidate demo_env (demo_story ''104'' ''Barchart'' ''Tue Jun 10, 5:00PM CDT'')
       = Some (''104'', 1749592800)"
    by (simp add: candidate_demo)
  have tok: "truthy_str (if truthy_str None then None
      else get_initial_cookies_and_xsrf demo_env)"
    by (simp add: demo_env_fields)
  from window_containment [of demo_env "Some ''20250611''" 30 None
      "run_session demo_env demo_windowed None (initial_state 1749704400)"
      1749618000 1749704399 demo_unbounded "initial_state 1749800000"
      "demo_story ''104'' ''Barchart'' ''Tue Jun 10, 5:00PM CDT''" "''104''" 1749592800]
    demo_harvest_windowed window_20250611 u c
  have "(\<forall>item \<in> set (all_news_items
            (run_session demo_env demo_windowed None (initial_state 1749704400))).
          1749618000 \<le> published_timestamp_utc item
          \<and> published_timestamp_utc item \<le> 1749704399)
      \<and> all_news_items (flow_state (story_body demo_env demo_unbounded
           (initial_state 1749800000)
           (demo_story ''104'' ''Barchart'' ''Tue Jun 10, 5:00PM CDT'')))
         = [make_item (demo_story ''104'' ''Barchart'' ''Tue Jun 10, 5:00PM CDT'') ''104''
              1749592800]"
    by simp
  moreover from window_containment [of demo_env None 30 None _ _ _ demo_unbounded
      "initial_state 0" _ _ _] tok
  have "fetch_barchart_news demo_env None 30 None
       = Inr (all_news_items (while_loop demo_env demo_unbounded (initial_state 1749800000)))"
    by (simp add: demo_unbounded_def demo_env_fields)
  ultimately show ?thesis
    using demo_harvest_windowed window_20250611 demo_session_windowed u c
    by (simp add: list_all_iff)
qed

section \<open>No id is collected twice\<close>

definition unique_inv :: "state \<Rightarrow> bool" where
  "unique_inv st = (seen_inv st \<and> distinct (map item_id (all_news_items st)))"

lemma unique_inv_cong:
  "all_news_items st' = all_news_items st \<Longrightarrow> processed_news_ids st' = processed_news_ids st \<Longrightarrow>
   unique_inv st \<Longrightarrow> unique_inv st'"
  by (simp add: unique_inv_def seen_inv_def)

lemma story_body_unique_inv: "unique_inv st \<Longrightarrow> unique_inv (flow_state (story_body E p st sd))"
  using story_body_effect [of E p st sd]
  by (auto simp: unique_inv_def seen_inv_def make_item_def)

lemma story_loop_unique_inv: "unique_inv st \<Longrightarrow> unique_inv (story_loop E p st stories)"
proof (induction stories arbitrary: st)
  case Nil
  then show ?case by simp
next
  case (Cons sd stories)
  from Cons.prems have inv: "unique_inv (flow_state (story_body E p st sd))"
    by (rule story_body_unique_inv)
  show ?case
  proof (cases "story_body E p st sd")
    case (Continue st')
    with inv Cons.IH [of st'] show ?thesis by simp
  next
    case (Break st')
    with inv show ?thesis by simp
  qed
qed

lemma while_body_unique_inv:
  assumes "unique_inv st"
  shows "unique_inv (while_body E p st)"
proof -
  from while_body_items_cases [of E p st] show ?thesis
  proof
    assume "all_news_items (while_body E p st) = all_news_items st
      \<and> processed_news_ids (while_body E p st) = processed_news_ids st"
    with assms show ?thesis by (simp add: unique_inv_def seen_inv_def)
  next
    assume "\<exists>st2 stories. all_news_items st2 = all_news_items st
         \<and> processed_news_ids st2 = processed_news_ids st
         \<and> all_news_items (while_body E p st) = all_news_items (story_loop E p st2 stories)
         \<and> processed_news_ids (while_body E p st) = processed_news_ids (story_loop E p st2 stories)"
    then obtain st2 stories where st2: "all_news_items st2 = all_news_items st"
      "processed_news_ids st2 = processed_news_ids st"
      and res: "all_news_items (while_body E p st) = all_news_items (story_loop E p st2 stories)"
      "processed_news_ids (while_body E p st) = processed_news_ids (story_loop E p st2 stories)"
      by blast
    from st2 assms have "unique_inv st2" by (rule unique_inv_cong)
    then have "unique_inv (story_loop E p st2 stories)" by (rule story_loop_unique_inv)
    with res show ?thesis by (simp add: unique_inv_def seen_inv_def)
  qed
qed

lemma while_loop_unique_inv: "unique_inv st \<Longrightarrow> unique_inv (while_loop E p st)"
proof (induction E p st rule: while_loop.induct)
  case (1 E p st)
  show ?case
  proof (cases "\<not> stop_fetching st \<and> api_call_num st < MAX_API_CALLS E")
    case True
    with "1.IH" "1.prems" have "unique_inv (while_loop E p (while_body E p st))"
      by (simp add: while_body_unique_inv)
    with True show ?thesis by (simp add: while_loop_step)
  next
    case False
    then have "while_loop E p st = st" by (intro while_loop_stop) auto
    with "1.prems" show ?thesis by simp
  qed
qed

lemma run_session_distinct:
  "params_ok p \<Longrightarrow> distinct (map item_id (all_news_items (run_session E p tok (initial_state b))))"
proof (cases "truthy_str (if truthy_str tok then tok else get_initial_cookies_and_xsrf E)")
  case True
  assume "params_ok p"
  from run_session_items [OF this True, of b]
    while_loop_unique_inv [of "initial_state b" E p]
  show ?thesis by (simp add: unique_inv_def seen_inv_def)
next
  case False
  then show ?thesis by (simp add: run_session_no_token)
qed

lemma fetch_state_distinct:
  assumes "fetch_barchart_news_state E d l tok = Inr fin"
  shows "distinct (map item_id (all_news_items fin))"
proof -
  from fetch_state_cases [OF assms] show ?thesis
  proof
    assume "fin = (initial_state 0)\<lparr>printed := [CouldNotDetermineRange]\<rparr>"
    then show ?thesis by simp
  next
    assume "\<exists>p b. params_ok p \<and> target_date_str p = d \<and> news_count_limit p = l
              \<and> fin = run_session E p tok (initial_state b)"
    then show ?thesis using run_session_distinct by blast
  qed
qed

text \<open>What one step of the inner loop does with a candidate.\<close>

definition accepted :: "state \<Rightarrow> state \<Rightarrow> story \<Rightarrow> string \<Rightarrow> int \<Rightarrow> bool" where
  "accepted st st' sd nid ts =
     (all_news_items st' = all_news_items st @ [make_item sd nid ts]
      \<and> processed_news_ids st' = insert nid (processed_news_ids st))"

lemma story_body_accept_iff:
  assumes "candidate E sd = Some (nid, ts)" and "\<not> older_than_target_start p ts"
    and "\<not> truthy_str (target_date_str p) \<or> in_target_range p ts"
  shows "accepted st (flow_state (story_body E p st sd)) sd nid ts
          \<longleftrightarrow> nid \<notin> processed_news_ids st"
  using assms by (auto simp: story_body_def Let_def accepted_def)

text \<open>
  Claim C7, as the code has it. A candidate that is not older than the target start
  and, when a target date is set, lies in the target range is accepted if and only if
  its id has not been seen; accepting it appends the item and inserts the id at once; a
  candidate with a seen id changes nothing. The list that the function returns holds
  no two items with the same id.
\<close>

theorem dedup_accepts_unseen_only:
  "(candidate E sd = Some (nid, ts) \<and> \<not> older_than_target_start p ts
       \<and> (\<not> truthy_str (target_date_str p) \<or> in_target_range p ts)
     \<longrightarrow> (accepted st (flow_state (story_body E p st sd)) sd nid ts
            \<longleftrightarrow> nid \<notin> processed_news_ids st)
         \<and> (nid \<in> processed_news_ids st \<longrightarrow>
              all_news_items (flow_state (story_body E p st sd)) = all_news_items st
              \<and> processed_news_ids (flow_state (story_body E p st sd)) = processed_news_ids st))
   \<and> (fetch_barchart_news_state E d l tok = Inr fin
     \<longrightarrow> distinct (map item_id (all_news_items fin)))"
proof -
  have "candidate E sd = Some (nid, ts) \<and> \<not> older_than_target_start p ts
       \<and> (\<not> truthy_str (target_date_str p) \<or> in_target_range p ts)
     \<longrightarrow> (accepted st (flow_state (story_body E p st sd)) sd nid ts
            \<longleftrightarrow> nid \<notin> processed_news_ids st)"
    using story_body_accept_iff [of E sd nid ts p st] by blast
  moreover have "candidate E sd = Some (nid, ts) \<and> nid \<in> processed_news_ids st \<longrightarrow>
              all_news_items (flow_state (story_body E p st sd)) = all_news_items st
              \<and> processed_news_ids (flow_state (story_body E p st sd)) = processed_news_ids st"
    using story_body_rejected [of E sd nid ts st p] by blast
  moreover have "fetch_barchart_news_state E d l tok = Inr fin
     \<longrightarrow> distinct (map item_id (all_news_items fin))"
    using fetch_state_distinct by blast
  ultimately show ?thesis by blast
qed

theorem dedup_accepts_unseen_only_witness:
  "candidate demo_env (demo_story ''101'' ''Barchart'' ''Wed Jun 11, 9:00AM CDT'')
     = Some (''101'', 1749650400)
   \<and> \<not> older_than_target_start demo_windowed 1749650400
   \<and> in_target_range demo_windowed 1749650400
   \<and> ''101'' \<notin> processed_news_ids (initial_state 1749704400)
   \<and> accepted (initial_state 1749704400)
        (flow_state (story_body demo_env demo_windowed (initial_state 1749704400)
           (demo_story ''101'' ''Barchart'' ''Wed Jun 11, 9:00AM CDT'')))
        (demo_story ''101'' ''Barchart'' ''Wed Jun 11, 9:00AM CDT'') ''101'' 1749650400
   \<and> fetch_barchart_news_state demo_env (Some ''20250611'') 30 None
       = Inr (run_session demo_env demo_windowed None (initial_state 1749704400))
   \<and> distinct (map item_id
        (all_news_items (run_session demo_env demo_windowed None (initial_state 1749704400))))"
proof -
  have c: "candidate demo_env (demo_story ''101'' ''Barchart'' ''Wed Jun 11, 9:00AM CDT'')
     = Some (''101'', 1749650400)"
    by (simp add: candidate_demo)
  have w: "\<not> older_than_target_start demo_windowed 1749650400
      \<and> in_target_range demo_windowed 1749650400"
    by (simp add: older_than_target_start_def in_target_range_def demo_windowed_def)
  from dedup_accepts_unseen_only [of demo_env
      "demo_story ''101'' ''Barchart'' ''Wed Jun 11, 9:00AM CDT''" "''101''" 1749650400
      demo_windowed "initial_state 1749704400" "Some ''20250611''" 30 None
      "run_session demo_env demo_windowed None (initial_state 1749704400)"]
    c w demo_harvest_windowed
  show ?thesis by simp
qed

text \<open>
  Claim C7 as stated fails: with the target date 20250611, a candidate with an unseen id
  and a timestamp above the end of the window is not accepted.
\<close>

theorem unseen_candidate_outside_window_rejected:
  "candidate demo_env (demo_story ''102'' ''Barchart'' ''Thu Jun 12, 9:00AM CDT'')
     = Some (''102'', 1749736800)
   \<and> ''102'' \<notin> processed_news_ids (initial_state 1749704400)
   \<and> all_news_items (flow_state (story_body demo_env demo_windowed (initial_state 1749704400)
        (demo_story ''102'' ''Barchart'' ''Thu Jun 12, 9:00AM CDT''))) = []
   \<and> processed_news_ids (flow_state (story_body demo_env demo_windowed
        (initial_state 1749704400)
        (demo_story ''102'' ''Barchart'' ''Thu Jun 12, 9:00AM CDT''))) = {}"
  by (simp add: candidate_demo story_body_def Let_def older_than_target_start_def
      in_target_range_def demo_windowed_def)

section \<open>The end of the feed\<close>

text \<open>
  Claim C9, as the code has it. When the response of an API call has no
  \<^verbatim>\<open>'content'\<close> (missing or empty) and no \<^verbatim>\<open>'timestamp'\<close>, the loop ends with
  this call: the message that there is no more older news is printed and no further
  request is made.
\<close>

theorem empty_content_without_hint_stops:
  assumes "\<not> stop_fetching st" and "api_call_num st < MAX_API_CALLS E"
    and "session_post E (Suc (api_call_num st)) (current_before_timestamp st) = Json pg"
    and "content pg = None" and "timestamp pg = NoTimestamp"
  shows "stop_fetching (while_loop E p st)
     \<and> printed (while_loop E p st) = printed st @ [NoMoreOlderNews]
     \<and> requests (while_loop E p st) = requests st @ [current_before_timestamp st]
     \<and> api_call_num (while_loop E p st) = Suc (api_call_num st)
     \<and> all_news_items (while_loop E p st) = all_news_items st"
proof -
  from while_body_empty_page [OF assms(3,4,5), of p]
  have body: "while_body E p st =
     (begin_call st)\<lparr>stop_fetching := True, printed := printed st @ [NoMoreOlderNews]\<rparr>" .
  then have "stop_fetching (while_body E p st)" by simp
  with assms(1,2) have "while_loop E p st = while_body E p st" by (rule while_loop_once)
  with body show ?thesis by simp
qed

text \<open>A service whose first page is empty and names no older page.\<close>

definition exhausted_env :: env where
  "exhausted_env =
     demo_env\<lparr>session_post := (\<lambda>n b. Json \<lparr>content = None, timestamp = NoTimestamp\<rparr>)\<rparr>"

theorem empty_content_without_hint_stops_witness:
  "\<not> stop_fetching (initial_state 1749704400)
   \<and> api_call_num (initial_state 1749704400) < MAX_API_CALLS exhausted_env
   \<and> session_post exhausted_env 1 1749704400 = Json \<lparr>content = None, timestamp = NoTimestamp\<rparr>
   \<and> stop_fetching (while_loop exhausted_env demo_windowed (initial_state 1749704400))
   \<and> printed (while_loop exhausted_env demo_windowed (initial_state 1749704400))
       = [NoMoreOlderNews]
   \<and> requests (while_loop exhausted_env demo_windowed (initial_state 1749704400))
       = [1749704400]
   \<and> all_news_items (while_loop exhausted_env demo_windowed (initial_state 1749704400)) = []"
proof -
  have f: "MAX_API_CALLS exhausted_env = 500"
    "session_post exhausted_env = (\<lambda>n b. Json \<lparr>content = None, timestamp = NoTimestamp\<rparr>)"
    by (simp_all add: exhausted_env_def demo_env_def)
  from empty_content_without_hint_stops [of "initial_state 1749704400" exhausted_env
      "\<lparr>content = None, timestamp = NoTimestamp\<rparr>" demo_windowed]
  show ?thesis by (simp add: f)
qed

text \<open>
  A service whose every page holds one story of another feed and no
  \<^verbatim>\<open>'timestamp'\<close>; the call limit is set to 3.
\<close>

definition foreign_feed :: "nat \<Rightarrow> int \<Rightarrow> response" where
  "foreign_feed n b =
     Json \<lparr>content = Some [demo_story ''77'' ''Associated Press'' ''Fri, 07 Jun 2024 19:48''],
           timestamp = NoTimestamp\<rparr>"

definition foreign_env :: env where
  "foreign_env = demo_env\<lparr>session_post := foreign_feed, MAX_API_CALLS := 3\<rparr>"

lemma foreign_env_fields:
  "session_post foreign_env = foreign_feed" "MAX_API_CALLS foreign_env = 3"
  "get_initial_cookies_and_xsrf foreign_env = Some ''token''"
  by (simp_all add: foreign_env_def demo_env_def)

lemma candidate_foreign:
  "candidate foreign_env (demo_story nid ''Associated Press'' dtxt) = None"
  by (simp add: candidate_def foreign_env_def demo_env_def demo_story_def lower_ap)

lemma foreign_run:
  "while_loop foreign_env demo_windowed (initial_state 1749704400) =
     \<lparr>current_before_timestamp = 1749704400, all_news_items = [], processed_news_ids = {},
      api_call_num = 3, stop_fetching = False,
      earliest_valid_ts_in_batch_for_fallback = None,
      requests = [1749704400, 1749704400, 1749704400], printed = []\<rparr>"
  by (simp add: while_loop.simps while_body_def initial_state_def foreign_env_fields
      foreign_feed_def story_body_def candidate_foreign
      stop_with_def next_before_timestamp_def Let_def demo_windowed_def)

text \<open>
  Claim C9 as stated fails: a page with content that yields no candidate (its only story
  is of another feed) and without \<^verbatim>\<open>'timestamp'\<close> does not end the loop; the same
  \<^verbatim>\<open>before\<close> value is requested again, here until the call limit of 3.
\<close>

theorem page_without_candidates_is_requested_again:
  "candidate foreign_env (demo_story ''77'' ''Associated Press'' ''Fri, 07 Jun 2024 19:48'') = None
   \<and> session_post foreign_env 1 1749704400
       = Json \<lparr>content = Some [demo_story ''77'' ''Associated Press'' ''Fri, 07 Jun 2024 19:48''],
               timestamp = NoTimestamp\<rparr>
   \<and> requests (while_loop foreign_env demo_windowed (initial_state 1749704400))
       = [1749704400, 1749704400, 1749704400]
   \<and> printed (while_loop foreign_env demo_windowed (initial_state 1749704400)) = []
   \<and> \<not> stop_fetching (while_loop foreign_env demo_windowed (initial_state 1749704400))"
  by (simp add: candidate_foreign foreign_run foreign_env_fields foreign_feed_def)

section \<open>The call limit\<close>

text \<open>Three facts about the loop as a whole.\<close>

definition counted :: "state \<Rightarrow> bool" where
  "counted st = (length (requests st) = api_call_num st)"

definition quiet :: "state \<Rightarrow> bool" where
  "quiet st = (stop_fetching st \<or> printed st = [])"

lemma while_body_counted: "counted st \<Longrightarrow> counted (while_body E p st)"
  by (simp add: counted_def while_body_requests while_body_api_call_num)

lemma while_body_quiet: "quiet st \<Longrightarrow> \<not> stop_fetching st \<Longrightarrow> quiet (while_body E p st)"
proof (cases "session_post E (Suc (api_call_num st)) (current_before_timestamp st)")
  case (Json pg)
  assume q: "quiet st" "\<not> stop_fetching st"
  show ?thesis
  proof (cases "content pg")
    case None
    with Json q show ?thesis
      by (simp add: while_body_def Let_def stop_with_def next_before_timestamp_def quiet_def
          split: timestamp_field.splits)
  next
    case (Some stories)
    let ?st3 = "story_loop E p (begin_call st) stories"
    show ?thesis
    proof (cases "\<forall>sd \<in> set stories. \<not> breaks E p sd")
      case True
      from story_loop_no_break [OF True, of "begin_call st"] q
      have "\<not> stop_fetching ?st3 \<and> printed ?st3 = []" by (simp add: quiet_def)
      with while_body_page [OF Json Some, of p] show ?thesis
        by (simp add: Let_def stop_with_def next_before_timestamp_def quiet_def
            split: timestamp_field.splits)
    next
      case False
      then obtain pre sd post where split: "stories = pre @ sd # post"
        "breaks E p sd" "\<forall>s \<in> set pre. \<not> breaks E p s"
        using split_list_first_prop [of stories "\<lambda>sd. breaks E p sd"] by auto
      from split(2) obtain nid ts where "candidate E sd = Some (nid, ts)"
        by (auto simp: breaks_def split: option.splits)
      from story_loop_first_break [OF split(3,2) this, of "begin_call st" post] split(1)
      have "stop_fetching ?st3" by simp
      with while_body_page [OF Json Some, of p] show ?thesis
        by (simp add: Let_def quiet_def)
    qed
  qed
qed (simp_all add: while_body_def Let_def stop_with_def quiet_def)

lemma while_loop_counted: "counted st \<Longrightarrow> counted (while_loop E p st)"
proof (induction E p st rule: while_loop.induct)
  case (1 E p st)
  show ?case
  proof (cases "\<not> stop_fetching st \<and> api_call_num st < MAX_API_CALLS E")
    case True
    with "1.IH" "1.prems" have "counted (while_loop E p (while_body E p st))"
      by (simp add: while_body_counted)
    with True show ?thesis by (simp add: while_loop_step)
  next
    case False
    then have "while_loop E p st = st" by (intro while_loop_stop) auto
    with "1.prems" show ?thesis by simp
  qed
qed

lemma while_loop_quiet: "quiet st \<Longrightarrow> quiet (while_loop E p st)"
proof (induction E p st rule: while_loop.induct)
  case (1 E p st)
  show ?case
  proof (cases "\<not> stop_fetching st \<and> api_call_num st < MAX_API_CALLS E")
    case True
    with "1.IH" "1.prems" have "quiet (while_loop E p (while_body E p st))"
      by (simp add: while_body_quiet)
    with True show ?thesis by (simp add: while_loop_step)
  next
    case False
    then have "while_loop E p st = st" by (intro while_loop_stop) auto
    with "1.prems" show ?thesis by simp
  qed
qed

lemma while_loop_bound:
  "api_call_num st \<le> MAX_API_CALLS E \<Longrightarrow> api_call_num (while_loop E p st) \<le> MAX_API_CALLS E"
proof (induction E p st rule: while_loop.induct)
  case (1 E p st)
  show ?case
  proof (cases "\<not> stop_fetching st \<and> api_call_num st < MAX_API_CALLS E")
    case True
    then have "api_call_num (while_body E p st) \<le> MAX_API_CALLS E"
      by (simp add: while_body_api_call_num)
    with "1.IH" True have "api_call_num (while_loop E p (while_body E p st)) \<le> MAX_API_CALLS E"
      by simp
    with True show ?thesis by (simp add: while_loop_step)
  next
    case False
    then have "while_loop E p st = st" by (intro while_loop_stop) auto
    with "1.prems" show ?thesis by simp
  qed
qed

lemma while_loop_exit:
  "stop_fetching (while_loop E p st) \<or> MAX_API_CALLS E \<le> api_call_num (while_loop E p st)"
proof (induction E p st rule: while_loop.induct)
  case (1 E p st)
  show ?case
  proof (cases "\<not> stop_fetching st \<and> api_call_num st < MAX_API_CALLS E")
    case True
    with "1.IH" show ?thesis by (simp add: while_loop_step)
  next
    case False
    then have "while_loop E p st = st" by (intro while_loop_stop) auto
    with False show ?thesis by auto
  qed
qed

text \<open>The seen ids only grow, and a page that does not stop the loop is processed whole.\<close>

definition eligible :: "params \<Rightarrow> int \<Rightarrow> bool" where
  "eligible p ts = (\<not> truthy_str (target_date_str p) \<or> in_target_range p ts)"

lemma story_body_mono:
  "processed_news_ids st \<subseteq> processed_news_ids (flow_state (story_body E p st sd))"
  using story_body_effect [of E p st sd] by auto

lemma story_loop_mono:
  "processed_news_ids st \<subseteq> processed_news_ids (story_loop E p st stories)"
proof (induction stories arbitrary: st)
  case Nil
  show ?case by simp
next
  case (Cons sd stories)
  show ?case
  proof (cases "story_body E p st sd")
    case (Continue st')
    with story_body_mono [of st E p sd] Cons.IH [of st'] show ?thesis by auto
  next
    case (Break st')
    with story_body_mono [of st E p sd] show ?thesis by simp
  qed
qed

lemma story_body_eligible:
  assumes "\<not> breaks E p sd" and "candidate E sd = Some (nid, ts)" and "eligible p ts"
  shows "\<exists>st'. story_body E p st sd = Continue st' \<and> nid \<in> processed_news_ids st'"
  using assms by (auto simp: story_body_def breaks_def eligible_def Let_def)

lemma story_loop_complete:
  "\<forall>s \<in> set stories. \<not> breaks E p s \<Longrightarrow> sd \<in> set stories \<Longrightarrow>
   candidate E sd = Some (nid, ts) \<Longrightarrow> eligible p ts \<Longrightarrow>
   nid \<in> processed_news_ids (story_loop E p st stories)"
proof (induction stories arbitrary: st)
  case Nil
  then show ?case by simp
next
  case (Cons s stories)
  from Cons.prems(1) have nb: "\<not> breaks E p s" and rest: "\<forall>s \<in> set stories. \<not> breaks E p s"
    by simp_all
  from story_body_continues [OF nb, of st] obtain st' where
    st': "story_body E p st s = Continue st'"
    by blast
  show ?case
  proof (cases "sd = s")
    case True
    from story_body_eligible [OF nb, of nid ts st] True Cons.prems(3,4) st'
    have "nid \<in> processed_news_ids st'" by simp
    with story_loop_mono [of st' E p stories] st' show ?thesis by auto
  next
    case False
    with Cons.prems(2) have "sd \<in> set stories" by simp
    from Cons.IH [OF rest this Cons.prems(3,4), of st'] st' show ?thesis by simp
  qed
qed

lemma story_loop_break_stops:
  assumes "\<not> (\<forall>sd \<in> set stories. \<not> breaks E p sd)"
  shows "stop_fetching (story_loop E p st stories)"
proof -
  from assms obtain pre sd post where split: "stories = pre @ sd # post"
    "breaks E p sd" "\<forall>s \<in> set pre. \<not> breaks E p s"
    using split_list_first_prop [of stories "\<lambda>sd. breaks E p sd"] by auto
  from split(2) obtain nid ts where "candidate E sd = Some (nid, ts)"
    by (auto simp: breaks_def split: option.splits)
  from story_loop_first_break [OF split(3,2) this, of st post] split(1)
  show ?thesis by simp
qed

lemma while_body_mono: "processed_news_ids st \<subseteq> processed_news_ids (while_body E p st)"
  using while_body_items_cases [of E p st] story_loop_mono by fastforce

lemma while_loop_mono: "processed_news_ids st \<subseteq> processed_news_ids (while_loop E p st)"
proof (induction E p st rule: while_loop.induct)
  case (1 E p st)
  show ?case
  proof (cases "\<not> stop_fetching st \<and> api_call_num st < MAX_API_CALLS E")
    case True
    with "1.IH" while_body_mono [of st E p] show ?thesis by (auto simp: while_loop_step)
  next
    case False
    then have "while_loop E p st = st" by (intro while_loop_stop) auto
    then show ?thesis by simp
  qed
qed

lemma while_body_complete:
  assumes "session_post E (Suc (api_call_num st)) (current_before_timestamp st) = Json pg"
    and "content pg = Some stories" and "\<not> stop_fetching (while_body E p st)"
    and "sd \<in> set stories" and "candidate E sd = Some (nid, ts)" and "eligible p ts"
  shows "nid \<in> processed_news_ids (while_body E p st)"
proof -
  let ?st3 = "story_loop E p (begin_call st) stories"
  have nb: "\<forall>s \<in> set stories. \<not> breaks E p s"
  proof (rule ccontr)
    assume "\<not> (\<forall>s \<in> set stories. \<not> breaks E p s)"
    then have "stop_fetching ?st3" by (rule story_loop_break_stops)
    with while_body_page [OF assms(1,2), of p] assms(3) show False by (simp add: Let_def)
  qed
  from story_loop_complete [OF nb assms(4,5,6), of "begin_call st"]
  have "nid \<in> processed_news_ids ?st3" .
  moreover from while_body_page [OF assms(1,2), of p]
  have "processed_news_ids (while_body E p st) = processed_news_ids ?st3"
    by (simp add: Let_def stop_with_def next_before_timestamp_def split: timestamp_field.splits)
  ultimately show ?thesis by simp
qed

lemma while_loop_requests_prefix:
  "\<exists>r. requests (while_loop E p st) = requests st @ r"
proof (induction E p st rule: while_loop.induct)
  case (1 E p st)
  show ?case
  proof (cases "\<not> stop_fetching st \<and> api_call_num st < MAX_API_CALLS E")
    case True
    with "1.IH" obtain r where
      "requests (while_loop E p (while_body E p st)) = requests (while_body E p st) @ r"
      by blast
    with True show ?thesis by (simp add: while_loop_step while_body_requests)
  next
    case False
    then have "while_loop E p st = st" by (intro while_loop_stop) auto
    then show ?thesis by simp
  qed
qed

lemma while_loop_complete:
  assumes "counted st" and "\<not> stop_fetching (while_loop E p st)"
    and "api_call_num st \<le> k" and "k < api_call_num (while_loop E p st)"
    and "session_post E (Suc k) (requests (while_loop E p st) ! k) = Json pg"
    and "content pg = Some stories"
    and "sd \<in> set stories" and "candidate E sd = Some (nid, ts)" and "eligible p ts"
  shows "nid \<in> processed_news_ids (while_loop E p st)"
  using assms
proof (induction E p st rule: while_loop.induct)
  case (1 E p st)
  show ?case
  proof (cases "\<not> stop_fetching st \<and> api_call_num st < MAX_API_CALLS E")
    case False
    then have "while_loop E p st = st" by (intro while_loop_stop) auto
    with "1.prems"(3,4) show ?thesis by simp
  next
    case True
    let ?b = "while_body E p st"
    from True have loop: "while_loop E p st = while_loop E p ?b" by (simp add: while_loop_step)
    have nostop: "\<not> stop_fetching ?b"
    proof
      assume "stop_fetching ?b"
      then have "while_loop E p ?b = ?b" by (intro while_loop_stop) simp
      with loop "1.prems"(2) \<open>stop_fetching ?b\<close> show False by simp
    qed
    show ?thesis
    proof (cases "k = api_call_num st")
      case here: True
      from while_loop_requests_prefix [of E p ?b] obtain r where
        "requests (while_loop E p ?b) = requests ?b @ r"
        by blast
      with "1.prems"(1) here have "requests (while_loop E p ?b) ! k = current_before_timestamp st"
        by (simp add: while_body_requests counted_def nth_append)
      with "1.prems"(5) loop here
      have "session_post E (Suc (api_call_num st)) (current_before_timestamp st) = Json pg"
        by simp
      from while_body_complete [OF this "1.prems"(6) nostop "1.prems"(7,8,9)]
        while_loop_mono [of ?b E p] loop
      show ?thesis by auto
    next
      case False
      with "1.prems"(3) have "api_call_num ?b \<le> k" by (simp add: while_body_api_call_num)
      moreover from "1.prems"(1) have "counted ?b" by (rule while_body_counted)
      ultimately show ?thesis
        using "1.IH" [OF True] "1.prems"(2,4,5,6,7,8,9) loop by simp
    qed
  qed
qed

text \<open>The window test in terms of the target date given to the function.\<close>

definition in_window_of :: "string option \<Rightarrow> int \<Rightarrow> bool" where
  "in_window_of d ts =
     (if truthy_str d
      then (case date_str_to_timestamps_for_day (the d) of
              Inr (Some start, Some end) \<Rightarrow> start \<le> ts \<and> ts \<le> end
            | _ \<Rightarrow> False)
      else True)"

lemma run_session_fields:
  assumes "truthy_str (if truthy_str tok then tok else get_initial_cookies_and_xsrf E)"
  shows "requests (run_session E p tok st0) = requests (while_loop E p st0)
     \<and> api_call_num (run_session E p tok st0) = api_call_num (while_loop E p st0)
     \<and> stop_fetching (run_session E p tok st0) = stop_fetching (while_loop E p st0)
     \<and> printed (run_session E p tok st0) =
         (if MAX_API_CALLS E \<le> api_call_num (while_loop E p st0)
          then printed (while_loop E p st0) @ [ReachedMaxApiCalls]
          else printed (while_loop E p st0))"
  using assms by (simp add: run_session_def Let_def)

lemma run_session_limit:
  assumes "params_ok p"
  shows "length (requests (run_session E p tok (initial_state b))) \<le> MAX_API_CALLS E
     \<and> api_call_num (run_session E p tok (initial_state b))
         = length (requests (run_session E p tok (initial_state b)))
     \<and> (\<not> stop_fetching (run_session E p tok (initial_state b))
          \<and> printed (run_session E p tok (initial_state b)) \<noteq> [FailedToObtainToken]
        \<longrightarrow> length (requests (run_session E p tok (initial_state b))) = MAX_API_CALLS E
          \<and> printed (run_session E p tok (initial_state b)) = [ReachedMaxApiCalls]
          \<and> (\<forall>k < MAX_API_CALLS E. \<forall>pg stories sd nid ts.
                session_post E (Suc k) (requests (run_session E p tok (initial_state b)) ! k)
                  = Json pg
                \<and> content pg = Some stories \<and> sd \<in> set stories
                \<and> candidate E sd = Some (nid, ts) \<and> eligible p ts
              \<longrightarrow> nid \<in> set (map item_id
                      (all_news_items (run_session E p tok (initial_state b))))))"
proof (cases "truthy_str (if truthy_str tok then tok else get_initial_cookies_and_xsrf E)")
  case False
  then show ?thesis by (simp add: run_session_no_token)
next
  case True
  let ?st = "while_loop E p (initial_state b)"
  let ?fin = "run_session E p tok (initial_state b)"
  note f = run_session_fields [OF True, of p "initial_state b"]
  have cnt: "counted ?st" by (rule while_loop_counted) (simp add: counted_def)
  have bnd: "api_call_num ?st \<le> MAX_API_CALLS E" by (rule while_loop_bound) simp
  have qt: "quiet ?st" by (rule while_loop_quiet) (simp add: quiet_def)
  have inv: "seen_inv ?st" by (rule while_loop_seen_inv) (simp add: seen_inv_def)
  note items = run_session_items [OF assms True, of b]
  from cnt bnd f have part1: "length (requests ?fin) \<le> MAX_API_CALLS E
     \<and> api_call_num ?fin = length (requests ?fin)"
    by (simp add: counted_def)
  have part2: "length (requests ?fin) = MAX_API_CALLS E
          \<and> printed ?fin = [ReachedMaxApiCalls]
          \<and> (\<forall>k < MAX_API_CALLS E. \<forall>pg stories sd nid ts.
                session_post E (Suc k) (requests ?fin ! k) = Json pg
                \<and> content pg = Some stories \<and> sd \<in> set stories
                \<and> candidate E sd = Some (nid, ts) \<and> eligible p ts
              \<longrightarrow> nid \<in> set (map item_id (all_news_items ?fin)))"
    if ns: "\<not> stop_fetching ?fin"
  proof -
    from ns f have ns': "\<not> stop_fetching ?st" by simp
    with while_loop_exit [of E p "initial_state b"] bnd
    have full: "api_call_num ?st = MAX_API_CALLS E" by simp
    from ns' qt have "printed ?st = []" by (simp add: quiet_def)
    with full f cnt have a: "length (requests ?fin) = MAX_API_CALLS E"
      "printed ?fin = [ReachedMaxApiCalls]"
      by (simp_all add: counted_def)
    have "nid \<in> set (map item_id (all_news_items ?fin))"
      if "k < MAX_API_CALLS E" and "session_post E (Suc k) (requests ?fin ! k) = Json pg"
        and "content pg = Some stories" and "sd \<in> set stories"
        and "candidate E sd = Some (nid, ts)" and "eligible p ts"
      for k pg stories sd nid ts
    proof -
      have "counted (initial_state b)" by (simp add: counted_def)
      moreover from that(1) full have "k < api_call_num ?st" by simp
      moreover from that(2) f
      have "session_post E (Suc k) (requests ?st ! k) = Json pg" by simp
      ultimately have "nid \<in> processed_news_ids ?st"
        using ns' that(3,4,5,6) while_loop_complete [of "initial_state b" E p k pg stories sd nid ts]
        by simp
      with inv items show ?thesis by (simp add: seen_inv_def)
    qed
    with a show ?thesis by blast
  qed
  from part1 part2 show ?thesis by blast
qed

text \<open>
  Claim C8. A run makes at most \<^verbatim>\<open>MAX_API_CALLS\<close> API calls (the loop is a total
  function: it always returns). When no stop condition fires during a run, the run makes
  exactly \<^verbatim>\<open>MAX_API_CALLS\<close> calls and ends with the message about the call limit,
  and every candidate of every fetched page that lies in the window (any candidate, when
  there is no target date) has its id among the returned items. The witness is a run
  with the limit 5 against a service that never runs dry.
\<close>

theorem call_limit_bounds_harvest:
  assumes "fetch_barchart_news_state E d l tok = Inr fin"
  shows "length (requests fin) \<le> MAX_API_CALLS E
     \<and> api_call_num fin = length (requests fin)
     \<and> (\<not> stop_fetching fin \<and> printed fin \<noteq> [CouldNotDetermineRange]
          \<and> printed fin \<noteq> [FailedToObtainToken]
        \<longrightarrow> length (requests fin) = MAX_API_CALLS E
          \<and> printed fin = [ReachedMaxApiCalls]
          \<and> (\<forall>k < MAX_API_CALLS E. \<forall>pg stories sd nid ts.
                session_post E (Suc k) (requests fin ! k) = Json pg
                \<and> content pg = Some stories \<and> sd \<in> set stories
                \<and> candidate E sd = Some (nid, ts) \<and> in_window_of d ts
              \<longrightarrow> nid \<in> set (map item_id (all_news_items fin))))"
proof (cases "truthy_str d")
  case False
  let ?p = "\<lparr>target_date_str = d, target_day_start_ts = None, target_day_end_ts = None,
             news_count_limit = l\<rparr>"
  from False have ok: "params_ok ?p" by (simp add: params_ok_def)
  from False have el: "\<And>ts. eligible ?p ts" by (simp add: eligible_def)
  from fetch_state_unbounded [OF False, of E l tok] assms
  have fin: "fin = run_session E ?p tok (initial_state (utc_now E))" by simp
  from run_session_limit [OF ok, of E tok "utc_now E"] el show ?thesis
    unfolding fin by blast
next
  case True
  show ?thesis
  proof (cases "date_str_to_timestamps_for_day (the d)")
    case (Inl x)
    from fetch_state_raises [OF True Inl] assms show ?thesis by simp
  next
    case (Inr w)
    obtain s e where w: "w = (s, e)" by (cases w)
    show ?thesis
    proof (cases "truthy_int s \<and> truthy_int e")
      case False
      from fetch_state_no_range [OF True Inr [unfolded w] False] assms
      show ?thesis by auto
    next
      case ok: True
      let ?p = "\<lparr>target_date_str = d, target_day_start_ts = s, target_day_end_ts = e,
                 news_count_limit = l\<rparr>"
      from True ok have pok: "params_ok ?p" by (simp add: params_ok_def)
      from ok have "truthy_int s" and "truthy_int e" by simp_all
      from fetch_state_windowed [OF True Inr [unfolded w] this] assms
      have fin: "fin = run_session E ?p tok (initial_state (the e + 1))" by simp
      have el: "\<And>ts. in_window_of d ts \<Longrightarrow> eligible ?p ts"
        using True Inr w
        by (auto simp: in_window_of_def eligible_def in_target_range_def split: option.splits)
      from run_session_limit [OF pok, of E tok "the e + 1"] el show ?thesis
        unfolding fin by blast
    qed
  qed
qed

text \<open>
  A service that never runs dry: call \<open>n\<close> is answered with one new Barchart story of
  the target day and a \<^verbatim>\<open>'timestamp'\<close> one minute below the \<^verbatim>\<open>before\<close> value of
  the call. The call limit is set to 5.
\<close>

definition steady_feed :: "nat \<Rightarrow> int \<Rightarrow> response" where
  "steady_feed n b =
     Json \<lparr>content = Some [demo_story
                (if n = 1 then ''201'' else if n = 2 then ''202'' else if n = 3 then ''203''
                 else if n = 4 then ''204'' else ''205'')
                ''Barchart'' ''Wed Jun 11, 9:00AM CDT''],
           timestamp = Timestamp (b - 60)\<rparr>"

definition steady_env :: env where
  "steady_env = demo_env\<lparr>session_post := steady_feed, MAX_API_CALLS := 5\<rparr>"

lemma steady_env_fields:
  "session_post steady_env = steady_feed" "MAX_API_CALLS steady_env = 5"
  "get_initial_cookies_and_xsrf steady_env = Some ''token''"
  by (simp_all add: steady_env_def demo_env_def)

lemma candidate_env_cong:
  "date_parser_parse E' = date_parser_parse E \<Longrightarrow> current_year E' = current_year E \<Longrightarrow>
   candidate E' sd = candidate E sd"
  by (simp add: candidate_def split: option.splits)

lemma candidate_steady:
  "candidate steady_env (demo_story nid ''Barchart'' ''Wed Jun 11, 9:00AM CDT'')
     = (if nid = [] then None else Some (nid, 1749650400))"
proof -
  have "candidate steady_env (demo_story nid ''Barchart'' ''Wed Jun 11, 9:00AM CDT'')
      = candidate demo_env (demo_story nid ''Barchart'' ''Wed Jun 11, 9:00AM CDT'')"
    by (rule candidate_env_cong) (simp_all add: steady_env_def)
  then show ?thesis by (simp add: candidate_demo)
qed

lemma steady_run:
  "while_loop steady_env demo_windowed (initial_state 1749704400) =
     \<lparr>current_before_timestamp = 1749704100,
      all_news_items =
        [make_item (demo_story ''201'' ''Barchart'' ''Wed Jun 11, 9:00AM CDT'') ''201'' 1749650400,
         make_item (demo_story ''202'' ''Barchart'' ''Wed Jun 11, 9:00AM CDT'') ''202'' 1749650400,
         make_item (demo_story ''203'' ''Barchart'' ''Wed Jun 11, 9:00AM CDT'') ''203'' 1749650400,
         make_item (demo_story ''204'' ''Barchart'' ''Wed Jun 11, 9:00AM CDT'') ''204'' 1749650400,
         make_item (demo_story ''205'' ''Barchart'' ''Wed Jun 11, 9:00AM CDT'') ''205'' 1749650400],
      processed_news_ids = {''201'', ''202'', ''203'', ''204'', ''205''},
      api_call_num = 5, stop_fetching = False,
      earliest_valid_ts_in_batch_for_fallback = Some 1749650400,
      requests = [1749704400, 1749704340, 1749704280, 1749704220, 1749704160],
      printed = []\<rparr>"
  by (simp add: while_loop.simps while_body_def initial_state_def steady_env_fields
      steady_feed_def story_body_def candidate_steady note_earliest_def
      older_than_target_start_def in_target_range_def demo_windowed_def stop_with_def
      next_before_timestamp_def Let_def insert_commute)

lemma steady_harvest:
  "fetch_barchart_news_state steady_env (Some ''20250611'') 30 None
     = Inr (run_session steady_env demo_windowed None (initial_state 1749704400))"
  using fetch_state_windowed [of "Some ''20250611''" "Some 1749618000" "Some 1749704399"
      steady_env 30 None]
  by (simp add: window_20250611 demo_windowed_def)

lemma steady_session:
  "requests (run_session steady_env demo_windowed None (initial_state 1749704400))
     = [1749704400, 1749704340, 1749704280, 1749704220, 1749704160]
   \<and> \<not> stop_fetching (run_session steady_env demo_windowed None (initial_state 1749704400))
   \<and> printed (run_session steady_env demo_windowed None (initial_state 1749704400))
       = [ReachedMaxApiCalls]"
  by (simp add: run_session_def Let_def steady_env_fields steady_run)

theorem call_limit_bounds_harvest_witness:
  "MAX_API_CALLS steady_env = 5
   \<and> fetch_barchart_news_state steady_env (Some ''20250611'') 30 None
       = Inr (run_session steady_env demo_windowed None (initial_state 1749704400))
   \<and> \<not> stop_fetching (run_session steady_env demo_windowed None (initial_state 1749704400))
   \<and> length (requests (run_session steady_env demo_windowed None (initial_state 1749704400)))
       = 5
   \<and> printed (run_session steady_env demo_windowed None (initial_state 1749704400))
       = [ReachedMaxApiCalls]
   \<and> session_post steady_env 5
        (requests (run_session steady_env demo_windowed None (initial_state 1749704400)) ! 4)
       = Json \<lparr>content = Some [demo_story ''205'' ''Barchart'' ''Wed Jun 11, 9:00AM CDT''],
               timestamp = Timestamp 1749704100\<rparr>
   \<and> candidate steady_env (demo_story ''205'' ''Barchart'' ''Wed Jun 11, 9:00AM CDT'')
       = Some (''205'', 1749650400)
   \<and> in_window_of (Some ''20250611'') 1749650400
   \<and> ''205'' \<in> set (map item_id
        (all_news_items (run_session steady_env demo_windowed None (initial_state 1749704400))))"
proof -
  let ?fin = "run_session steady_env demo_windowed None (initial_state 1749704400)"
  let ?pg = "\<lparr>content = Some [demo_story ''205'' ''Barchart'' ''Wed Jun 11, 9:00AM CDT''],
               timestamp = Timestamp 1749704100\<rparr>"
  have post: "session_post steady_env 5 (requests ?fin ! 4) = Json ?pg"
    by (simp add: steady_session steady_env_fields steady_feed_def)
  have c: "candidate steady_env (demo_story ''205'' ''Barchart'' ''Wed Jun 11, 9:00AM CDT'')
       = Some (''205'', 1749650400)"
    by (simp add: candidate_steady)
  have w: "in_window_of (Some ''20250611'') 1749650400"
    by (simp add: in_window_of_def window_20250611)
  note T = call_limit_bounds_harvest [OF steady_harvest]
  have prem: "\<not> stop_fetching ?fin \<and> printed ?fin \<noteq> [CouldNotDetermineRange]
      \<and> printed ?fin \<noteq> [FailedToObtainToken]"
    using steady_session by simp
  from T prem have len: "length (requests ?fin) = MAX_API_CALLS steady_env"
    by blast
  from T prem have all: "\<forall>k < MAX_API_CALLS steady_env. \<forall>pg stories sd nid ts.
                session_post steady_env (Suc k) (requests ?fin ! k) = Json pg
                \<and> content pg = Some stories \<and> sd \<in> set stories
                \<and> candidate steady_env sd = Some (nid, ts) \<and> in_window_of (Some ''20250611'') ts
              \<longrightarrow> nid \<in> set (map item_id (all_news_items ?fin))"
    by blast
  have k: "(4::nat) < MAX_API_CALLS steady_env" by (simp add: steady_env_fields)
  have "''205'' \<in> set (map item_id (all_news_items ?fin))"
    by (rule all [rule_format, of 4 ?pg
          "[demo_story ''205'' ''Barchart'' ''Wed Jun 11, 9:00AM CDT'']"
          "demo_story ''205'' ''Barchart'' ''Wed Jun 11, 9:00AM CDT''" "''205''" 1749650400])
      (simp_all add: k post c w)
  with len have "length (requests ?fin) = 5"
    "''205'' \<in> set (map item_id (all_news_items ?fin))"
    by (simp_all add: steady_env_fields)
  with post c w steady_harvest steady_session show ?thesis
    by (simp add: steady_env_fields)
qed

section \<open>The next \<^verbatim>\<open>before\<close> value\<close>

text \<open>
  A service whose \<^verbatim>\<open>'timestamp'\<close> repeats the \<^verbatim>\<open>before\<close> value of the call, and
  one that sends no \<^verbatim>\<open>'timestamp'\<close>; every page holds one Barchart story of the
  target day, published at 1749650400. The call limit is set to 3.
\<close>

definition stalled_feed :: "nat \<Rightarrow> int \<Rightarrow> response" where
  "stalled_feed n b =
     Json \<lparr>content = Some [demo_story ''101'' ''Barchart'' ''Wed Jun 11, 9:00AM CDT''],
           timestamp = Timestamp b\<rparr>"

definition stalled_env :: env where
  "stalled_env = demo_env\<lparr>session_post := stalled_feed, MAX_API_CALLS := 3\<rparr>"

definition hintless_feed :: "nat \<Rightarrow> int \<Rightarrow> response" where
  "hintless_feed n b =
     Json \<lparr>content = Some [demo_story ''101'' ''Barchart'' ''Wed Jun 11, 9:00AM CDT''],
           timestamp = NoTimestamp\<rparr>"

definition hintless_env :: env where
  "hintless_env = demo_env\<lparr>session_post := hintless_feed, MAX_API_CALLS := 3\<rparr>"

lemma stalled_env_fields:
  "session_post stalled_env = stalled_feed" "MAX_API_CALLS stalled_env = 3"
  "get_initial_cookies_and_xsrf stalled_env = Some ''token''"
  "session_post hintless_env = hintless_feed" "MAX_API_CALLS hintless_env = 3"
  "get_initial_cookies_and_xsrf hintless_env = Some ''token''"
  by (simp_all add: stalled_env_def hintless_env_def demo_env_def)

lemma candidate_stalled:
  "candidate stalled_env (demo_story ''101'' ''Barchart'' ''Wed Jun 11, 9:00AM CDT'')
     = Some (''101'', 1749650400)"
  "candidate hintless_env (demo_story ''101'' ''Barchart'' ''Wed Jun 11, 9:00AM CDT'')
     = Some (''101'', 1749650400)"
proof -
  have "candidate stalled_env (demo_story ''101'' ''Barchart'' ''Wed Jun 11, 9:00AM CDT'')
      = candidate demo_env (demo_story ''101'' ''Barchart'' ''Wed Jun 11, 9:00AM CDT'')"
    by (rule candidate_env_cong) (simp_all add: stalled_env_def)
  then show "candidate stalled_env (demo_story ''101'' ''Barchart'' ''Wed Jun 11, 9:00AM CDT'')
     = Some (''101'', 1749650400)"
    by (simp add: candidate_demo)
  have "candidate hintless_env (demo_story ''101'' ''Barchart'' ''Wed Jun 11, 9:00AM CDT'')
      = candidate demo_env (demo_story ''101'' ''Barchart'' ''Wed Jun 11, 9:00AM CDT'')"
    by (rule candidate_env_cong) (simp_all add: hintless_env_def)
  then show "candidate hintless_env (demo_story ''101'' ''Barchart'' ''Wed Jun 11, 9:00AM CDT'')
     = Some (''101'', 1749650400)"
    by (simp add: candidate_demo)
qed

lemma stalled_run:
  "while_loop stalled_env demo_windowed (initial_state 1749704400) =
     \<lparr>current_before_timestamp = 1749704400,
      all_news_items =
        [make_item (demo_story ''101'' ''Barchart'' ''Wed Jun 11, 9:00AM CDT'') ''101'' 1749650400],
      processed_news_ids = {''101''}, api_call_num = 3, stop_fetching = False,
      earliest_valid_ts_in_batch_for_fallback = Some 1749650400,
      requests = [1749704400, 1749704400, 1749704400], printed = []\<rparr>"
  by (simp add: while_loop.simps while_body_def initial_state_def stalled_env_fields
      stalled_feed_def story_body_def candidate_stalled note_earliest_def
      older_than_target_start_def in_target_range_def demo_windowed_def stop_with_def
      next_before_timestamp_def Let_def)

lemma stalled_harvest:
  "fetch_barchart_news_state stalled_env (Some ''20250611'') 30 None
     = Inr (run_session stalled_env demo_windowed None (initial_state 1749704400))"
  using fetch_state_windowed [of "Some ''20250611''" "Some 1749618000" "Some 1749704399"
      stalled_env 30 None]
  by (simp add: window_20250611 demo_windowed_def)

text \<open>
  Claim C1 at a failing input. The service answers every call with a
  \<^verbatim>\<open>'timestamp'\<close> equal to the \<^verbatim>\<open>before\<close> value of the call, while the oldest
  item of the page (1749650400) is below it. The function requests the same
  \<^verbatim>\<open>before\<close> value three times, until the call limit ends the loop; the only message
  is the one about the call limit.
\<close>

theorem stalled_cursor_is_requested_again:
  "map_sum id (\<lambda>st. (requests st, printed st, stop_fetching st))
     (fetch_barchart_news_state stalled_env (Some ''20250611'') 30 None)
   = Inr ([1749704400, 1749704400, 1749704400], [ReachedMaxApiCalls], False)"
  by (simp add: stalled_harvest run_session_def Let_def stalled_env_fields stalled_run)

text \<open>
  Claim C2 at a failing input. The page has no \<^verbatim>\<open>'timestamp'\<close> and its oldest item
  (1749650400) is below the current \<^verbatim>\<open>before\<close> value (1749704400). After the call
  the loop goes on and the \<^verbatim>\<open>before\<close> value is unchanged: it is not the batch
  minimum.
\<close>

theorem batch_minimum_is_not_used:
  "session_post hintless_env 1 1749704400
     = Json \<lparr>content = Some [demo_story ''101'' ''Barchart'' ''Wed Jun 11, 9:00AM CDT''],
             timestamp = NoTimestamp\<rparr>
   \<and> earliest_valid_ts_in_batch_for_fallback
        (while_body hintless_env demo_windowed (initial_state 1749704400)) = Some 1749650400
   \<and> \<not> stop_fetching (while_body hintless_env demo_windowed (initial_state 1749704400))
   \<and> current_before_timestamp
        (while_body hintless_env demo_windowed (initial_state 1749704400)) = 1749704400"
  by (simp add: while_body_def initial_state_def stalled_env_fields
      hintless_feed_def story_body_def candidate_stalled note_earliest_def
      older_than_target_start_def in_target_range_def demo_windowed_def stop_with_def
      next_before_timestamp_def Let_def)

end
